theory Spec2Isabelle
  imports Complex_Main "HOL-Library.Word"
begin

section \<open>Tensors\<close>

text \<open>
  The training script \<^verbatim>\<open>train.py\<close> works on rank-4 tensors laid out as
  \<^verbatim>\<open>[batch, rows, cols, chans]\<close>. A tensor is a nested list in that order of axes.
  Arithmetic is over the reals: the 32-bit floating point rounding of TensorFlow and
  NumPy is not part of the model. An operation that raises in Python (a shape that
  does not broadcast, a missing dictionary key) returns \<open>None\<close>.

  A nested list does not remember the inner extents of an axis of length 0; the
  extents of such a tensor are read as 0 from the first empty axis on.
\<close>

type_synonym pixel = "real list"
type_synonym image = "pixel list list"
type_synonym tensor = "image list"

definition has_shape :: "'a list list list list \<Rightarrow> nat \<Rightarrow> nat \<Rightarrow> nat \<Rightarrow> nat \<Rightarrow> bool" where
  "has_shape t B H W C \<longleftrightarrow>
     length t = B \<and>
     (\<forall>img \<in> set t. length img = H \<and>
        (\<forall>row \<in> set img. length row = W \<and> (\<forall>px \<in> set row. length px = C)))"

definition image_shape :: "'a list list list \<Rightarrow> nat \<Rightarrow> nat \<Rightarrow> nat \<Rightarrow> bool" where
  "image_shape img H W C \<longleftrightarrow>
     length img = H \<and> (\<forall>row \<in> set img. length row = W \<and> (\<forall>px \<in> set row. length px = C))"

definition rows :: "tensor \<Rightarrow> nat" where
  "rows t = (case t of [] \<Rightarrow> 0 | img # _ \<Rightarrow> length img)"

definition cols :: "tensor \<Rightarrow> nat" where
  "cols t = (case t of [] \<Rightarrow> 0 | img # _ \<Rightarrow> (case img of [] \<Rightarrow> 0 | row # _ \<Rightarrow> length row))"

definition tmap :: "(real \<Rightarrow> real) \<Rightarrow> tensor \<Rightarrow> tensor" where
  "tmap f t = map (map (map (map f))) t"

primrec those_ok :: "'a option list \<Rightarrow> 'a list option" where
  "those_ok [] = Some []"
| "those_ok (x # xs) =
     (case x of None \<Rightarrow> None
      | Some y \<Rightarrow> (case those_ok xs of None \<Rightarrow> None | Some ys \<Rightarrow> Some (y # ys)))"

text \<open>
  Broadcasting of one axis, as TensorFlow and NumPy do it: two extents are compatible
  when they are equal or one of them is 1, and the axis of extent 1 is repeated.
\<close>

definition bcast :: "('a \<Rightarrow> 'b \<Rightarrow> 'c option) \<Rightarrow> 'a list \<Rightarrow> 'b list \<Rightarrow> 'c list option" where
  "bcast f xs ys =
     (if length xs = length ys then those_ok (map (\<lambda>(x, y). f x y) (zip xs ys))
      else if length xs = 1 then those_ok (map (f (hd xs)) ys)
      else if length ys = 1 then those_ok (map (\<lambda>x. f x (hd ys)) xs)
      else None)"

definition tbinop :: "(real \<Rightarrow> real \<Rightarrow> real) \<Rightarrow> tensor \<Rightarrow> tensor \<Rightarrow> tensor option" where
  "tbinop f = bcast (bcast (bcast (bcast (\<lambda>a b. Some (f a b)))))"

definition reduce_sum :: "tensor \<Rightarrow> real" where
  "reduce_sum t = (\<Sum>img\<leftarrow>t. \<Sum>row\<leftarrow>img. \<Sum>px\<leftarrow>row. sum_list px)"

text \<open>
  \<^verbatim>\<open>tf.reduce_min\<close> and \<^verbatim>\<open>tf.reduce_mean\<close> of a Python list of scalars. On an empty
  list TensorFlow yields an infinity and a NaN, which are no real numbers: \<open>None\<close>.
\<close>

fun reduce_min :: "real list \<Rightarrow> real option" where
  "reduce_min [] = None"
| "reduce_min (x # xs) = Some (fold min xs x)"

definition reduce_mean :: "real list \<Rightarrow> real option" where
  "reduce_mean xs = (if xs = [] then None else Some (sum_list xs / real (length xs)))"


section \<open>The feature extractor wrapper\<close>

text \<open>
  The network \<^verbatim>\<open>tf.contrib.slim.nets.vgg.vgg_19\<close> and the interpolation
  \<^verbatim>\<open>tf.image.resize_images\<close> are library code; they are parameters of the model:
  \<open>vgg_19\<close> maps an image batch to its named end points, \<open>resize_images\<close> maps a
  tensor and a target \<open>(rows, cols)\<close> to the resampled tensor.
\<close>

type_synonym end_points = "string \<rightharpoonup> tensor"
type_synonym network = "tensor \<Rightarrow> end_points"
type_synonym resizer = "tensor \<Rightarrow> nat \<times> nat \<Rightarrow> tensor"

definition vgg_mean :: "real list" where
  "vgg_mean = [103.939, 116.779, 123.68]"

text \<open>
  \<^verbatim>\<open>image_normalized = image * 255.0 - vgg_mean\<close>: the rank-1 array of three means
  broadcasts against the channel axis.
\<close>

definition image_normalized :: "tensor \<Rightarrow> tensor option" where
  "image_normalized img = tbinop (-) (tmap (\<lambda>x. x * 255.0) img) [[[vgg_mean]]]"

definition vgg_19_evaluate :: "network \<Rightarrow> tensor \<Rightarrow> end_points option" where
  "vgg_19_evaluate vgg_19 img =
     (case image_normalized img of
        None \<Rightarrow> None
      | Some normalized \<Rightarrow> Some (vgg_19 img))"


section \<open>The perceptual loss\<close>

definition lambda_weights :: "real list" where
  "lambda_weights = [0.88, 0.79, 0.63, 0.51, 0.39, 1.07]"

definition layers :: "string list" where
  "layers =
     [''input'',
      ''vgg_19/conv1/conv1_2'',
      ''vgg_19/conv2/conv2_2'',
      ''vgg_19/conv3/conv3_2'',
      ''vgg_19/conv4/conv4_2'',
      ''vgg_19/conv5/conv5_2'']"

definition collection_size :: nat where
  "collection_size = 9"

text \<open>The slice \<^verbatim>\<open>t[:, :, :, lo:hi]\<close> for indices that are not negative.\<close>

definition slice_channels :: "nat \<Rightarrow> nat \<Rightarrow> tensor \<Rightarrow> tensor" where
  "slice_channels lo hi t = map (map (map (\<lambda>px. drop lo (take hi px)))) t"

text \<open>Lines 64 to 70: the mask, the weighted masked absolute difference, its sum.\<close>

definition layer_loss :: "resizer \<Rightarrow> tensor \<Rightarrow> real \<Rightarrow> tensor \<Rightarrow> tensor \<Rightarrow> real option" where
  "layer_loss resize_images image_bw weight act_fake act_real =
     (let mask = resize_images image_bw (rows act_fake, cols act_fake) in
      case tbinop (-) act_fake act_real of
        None \<Rightarrow> None
      | Some diff \<Rightarrow>
          (case tbinop (*) (tmap (\<lambda>m. weight * m) mask) (tmap abs diff) of
             None \<Rightarrow> None
           | Some loss_inner \<Rightarrow> Some (reduce_sum loss_inner)))"

text \<open>Lines 57 to 62: the activations of a layer; a missing key raises.\<close>

definition activations ::
  "string \<Rightarrow> tensor \<Rightarrow> tensor \<Rightarrow> end_points \<Rightarrow> end_points \<Rightarrow> (tensor \<times> tensor) option" where
  "activations layer image_rgb_fake image_rgb_real end_points_fake end_points_real =
     (if layer = ''input'' then Some (image_rgb_fake, image_rgb_real)
      else (case end_points_fake layer of
              None \<Rightarrow> None
            | Some act_fake \<Rightarrow>
                (case end_points_real layer of
                   None \<Rightarrow> None
                 | Some act_real \<Rightarrow> Some (act_fake, act_real))))"

text \<open>
  The body of the loop over the candidates (lines 50 to 76) for the candidate \<open>i\<close>.
  The weights and the number of candidates are local constants of the source; they
  are arguments here so that claims that vary them can be stated, and
  \<open>build_loss_func\<close> below fixes them to the source's values.
\<close>

definition losses_collection ::
  "real list \<Rightarrow> network \<Rightarrow> resizer \<Rightarrow> tensor \<Rightarrow> tensor \<Rightarrow> end_points \<Rightarrow> tensor
     \<Rightarrow> real list option" where
  "losses_collection weights vgg_19 resize_images image_bw image_rgb_real end_points_real
       image_rgb_fake =
     (case vgg_19_evaluate vgg_19 image_rgb_fake of
        None \<Rightarrow> None
      | Some end_points_fake \<Rightarrow>
          those_ok (map (\<lambda>(weight, layer).
              case activations layer image_rgb_fake image_rgb_real
                     end_points_fake end_points_real of
                None \<Rightarrow> None
              | Some (act_fake, act_real) \<Rightarrow>
                  layer_loss resize_images image_bw weight act_fake act_real)
            (zip weights layers)))"

definition loss_collection ::
  "real list \<Rightarrow> network \<Rightarrow> resizer \<Rightarrow> tensor \<Rightarrow> tensor \<Rightarrow> end_points \<Rightarrow> tensor
     \<Rightarrow> real option" where
  "loss_collection weights vgg_19 resize_images image_bw image_rgb_real end_points_real
       image_rgb_fake =
     map_option sum_list
       (losses_collection weights vgg_19 resize_images image_bw image_rgb_real
          end_points_real image_rgb_fake)"

text \<open>The list \<^verbatim>\<open>losses\<close> after the loop over \<^verbatim>\<open>range(collection_size)\<close>.\<close>

definition candidate_losses ::
  "nat \<Rightarrow> real list \<Rightarrow> network \<Rightarrow> resizer \<Rightarrow> tensor \<Rightarrow> tensor \<Rightarrow> tensor
     \<Rightarrow> real list option" where
  "candidate_losses n weights vgg_19 resize_images image_bw images_rgb_fake image_rgb_real =
     (case vgg_19_evaluate vgg_19 image_rgb_real of
        None \<Rightarrow> None
      | Some end_points_real \<Rightarrow>
          those_ok (map (\<lambda>i.
              loss_collection weights vgg_19 resize_images image_bw image_rgb_real
                end_points_real (slice_channels (i * 3) ((i + 1) * 3) images_rgb_fake))
            [0..<n]))"

text \<open>Lines 78 to 80.\<close>

definition blend :: "real list \<Rightarrow> real option" where
  "blend losses =
     (case reduce_min losses of
        None \<Rightarrow> None
      | Some loss_min \<Rightarrow>
          (case reduce_mean losses of
             None \<Rightarrow> None
           | Some loss_mean \<Rightarrow> Some (loss_min * 0.999 + loss_mean * 0.001)))"

definition build_loss_func_with ::
  "nat \<Rightarrow> real list \<Rightarrow> network \<Rightarrow> resizer \<Rightarrow> tensor \<Rightarrow> tensor \<Rightarrow> tensor \<Rightarrow> real option" where
  "build_loss_func_with n weights vgg_19 resize_images image_bw images_rgb_fake image_rgb_real =
     (case candidate_losses n weights vgg_19 resize_images image_bw images_rgb_fake
             image_rgb_real of
        None \<Rightarrow> None
      | Some losses \<Rightarrow> blend losses)"

definition build_loss_func ::
  "network \<Rightarrow> resizer \<Rightarrow> tensor \<Rightarrow> tensor \<Rightarrow> tensor \<Rightarrow> real option" where
  "build_loss_func = build_loss_func_with collection_size lambda_weights"


section \<open>The visualization sink\<close>

type_synonym u8pixel = "8 word list"
type_synonym u8image = "u8pixel list list"
type_synonym u8tensor = "u8image list"

text \<open>
  \<^verbatim>\<open>astype(np.uint8)\<close> on a floating point array: the fraction is dropped (rounding
  towards zero) and the integer is reduced to its low 8 bits.
\<close>

definition trunc :: "real \<Rightarrow> int" where
  "trunc x = (if 0 \<le> x then \<lfloor>x\<rfloor> else \<lceil>x\<rceil>)"

definition astype_uint8 :: "real \<Rightarrow> 8 word" where
  "astype_uint8 x = word_of_int (trunc x)"

definition to_uint8 :: "tensor \<Rightarrow> u8tensor" where
  "to_uint8 t = map (map (map (map (\<lambda>x. astype_uint8 (x * 255))))) t"

definition clip01 :: "tensor \<Rightarrow> tensor" where
  "clip01 t = tmap (\<lambda>x. min (max x 0.0) 1.0) t"

text \<open>
  \<^verbatim>\<open>cv2.cvtColor(image_bw, cv2.COLOR_GRAY2BGR)\<close>: a one-channel image becomes a
  three-channel image that repeats the gray value; OpenCV refuses an image without
  pixels and an image that is not one-channel.
\<close>

definition cvtColor_GRAY2BGR :: "u8image \<Rightarrow> u8image option" where
  "cvtColor_GRAY2BGR image_bw =
     (if concat image_bw = [] then None
      else if list_all (list_all (\<lambda>px. length px = 1)) image_bw
      then Some (map (map (\<lambda>px. replicate 3 (hd px))) image_bw)
      else None)"

definition uniform :: "nat list \<Rightarrow> bool" where
  "uniform ns = (case ns of [] \<Rightarrow> True | n # _ \<Rightarrow> list_all (\<lambda>k. k = n) ns)"

definition pixel_sizes :: "u8image \<Rightarrow> nat list" where
  "pixel_sizes img = concat (map (map length) img)"

text \<open>
  \<^verbatim>\<open>np.hstack\<close> joins arrays of rank 3 along axis 1 and \<^verbatim>\<open>np.vstack\<close> along axis 0;
  the other extents must agree, and an empty sequence is refused.
\<close>

definition hstack :: "u8image list \<Rightarrow> u8image option" where
  "hstack tup =
     (if tup = [] then None
      else if uniform (map length tup) \<and> uniform (concat (map pixel_sizes tup))
      then Some (map (\<lambda>h. concat (map (\<lambda>img. img ! h) tup)) [0..<length (hd tup)])
      else None)"

definition vstack :: "u8image list \<Rightarrow> u8image option" where
  "vstack tup =
     (if tup = [] then None
      else if uniform (map length (concat tup)) \<and> uniform (concat (map pixel_sizes tup))
      then Some (concat tup)
      else None)"

text \<open>Lines 99 to 101: one row of tiles.\<close>

definition row_image :: "u8image \<Rightarrow> u8image \<Rightarrow> u8image \<Rightarrow> u8image option" where
  "row_image image_bw image_rgb_real collection_fake =
     (case cvtColor_GRAY2BGR image_bw of
        None \<Rightarrow> None
      | Some gray \<Rightarrow>
          hstack ([gray, image_rgb_real] @
                  map (\<lambda>i. map (map (\<lambda>px. drop (i * 3) (take ((i + 1) * 3) px))) collection_fake)
                    [0..<9]))"

text \<open>Lines 91 to 95: the three batches as arrays of bytes.\<close>

definition batch_fake :: "tensor \<Rightarrow> u8tensor" where
  "batch_fake batch_rgb_fake = to_uint8 (clip01 batch_rgb_fake)"

definition batch_real :: "tensor \<Rightarrow> u8tensor" where
  "batch_real batch_rgb_real = to_uint8 batch_rgb_real"

definition batch_bw8 :: "tensor \<Rightarrow> u8tensor" where
  "batch_bw8 batch_bw = to_uint8 batch_bw"

text \<open>Lines 91 to 103: the array handed to \<^verbatim>\<open>cv2.imwrite\<close>.\<close>

definition out_image :: "tensor \<Rightarrow> tensor \<Rightarrow> tensor \<Rightarrow> u8image option" where
  "out_image batch_rgb_fake batch_rgb_real batch_bw =
     (case those_ok
             (map (\<lambda>(image_bw, image_rgb_real, collection_fake).
                     row_image image_bw image_rgb_real collection_fake)
                (zip (batch_bw8 batch_bw)
                   (zip (batch_real batch_rgb_real) (batch_fake batch_rgb_fake)))) of
        None \<Rightarrow> None
      | Some row_images \<Rightarrow> vstack row_images)"


section \<open>The training orchestrator\<close>

datatype exn = ZeroDivisionError | FileExistsError | ValueError

datatype outcome = Done | Raise exn | SystemExit string

text \<open>
  The exit status of the process: \<^verbatim>\<open>sys.exit\<close> with a string prints it to the
  standard error stream and exits with status 1, as an uncaught exception does.
\<close>

fun exit_status :: "outcome \<Rightarrow> nat" where
  "exit_status Done = 0"
| "exit_status (Raise e) = 1"
| "exit_status (SystemExit msg) = 1"

datatype content = Image u8image | Checkpoint nat nat | Other

datatype event =
    Built_graph
  | Opened string
  | Stepped nat nat
  | Wrote string
  | Saved string

record world =
  dirs :: "string set"
  files :: "string \<rightharpoonup> content"
  workers :: nat
  trace :: "event list"

record args =
  data_dir :: string
  output_dir :: string
  batch_size :: int
  epochs :: int
  resume :: bool
  save_every :: int
  num_cpus :: int
  summarize :: bool
  name :: string

text \<open>
  \<^verbatim>\<open>get_args\<close> when the command line gives the two positional arguments only;
  \<open>timestamp\<close> is the value of \<^verbatim>\<open>timestamp()\<close>.
\<close>

definition get_args :: "string \<Rightarrow> string \<Rightarrow> string \<Rightarrow> args" where
  "get_args data output timestamp =
     \<lparr>data_dir = data, output_dir = output, batch_size = 1, epochs = 100, resume = False,
      save_every = 50, num_cpus = 4, summarize = False, name = timestamp\<rparr>"

text \<open>
  What the session, the batch source and the generator do is outside \<^verbatim>\<open>train.py\<close>:
  \<open>num_batches\<close> is the attribute of the image generator, and \<open>run epoch batch_num\<close> is
  what the two calls of \<^verbatim>\<open>sess.run\<close> of a step return: the candidates, the color batch
  and the grayscale batch.
\<close>

record env =
  num_batches :: nat
  run :: "nat \<Rightarrow> nat \<Rightarrow> tensor \<times> tensor \<times> tensor"

text \<open>\<^verbatim>\<open>os.path.join\<close> of two components on a POSIX system.\<close>

definition path_join :: "string \<Rightarrow> string \<Rightarrow> string" where
  "path_join a b =
     (if b \<noteq> [] \<and> hd b = CHR ''/'' then b
      else if a = [] \<or> last a = CHR ''/'' then a @ b
      else a @ ''/'' @ b)"

text \<open>The decimal digits of a number, as \<^verbatim>\<open>'{}'.format\<close> prints it.\<close>

fun str_nat :: "nat \<Rightarrow> string" where
  "str_nat n =
     (if n < 10 then [''0123456789'' ! n]
      else str_nat (n div 10) @ [''0123456789'' ! (n mod 10)])"

declare str_nat.simps [simp del]

definition image_name :: "nat \<Rightarrow> nat \<Rightarrow> string" where
  "image_name epoch batch_num = str_nat epoch @ ''_'' @ str_nat batch_num @ ''.jpg''"

definition isfile :: "world \<Rightarrow> string \<Rightarrow> bool" where
  "isfile w p \<longleftrightarrow> files w p \<noteq> None"

definition isdir :: "world \<Rightarrow> string \<Rightarrow> bool" where
  "isdir w p \<longleftrightarrow> p \<in> dirs w"

text \<open>
  \<^verbatim>\<open>os.mkdir\<close> raises when the path exists. The parent of the directory that the loop
  makes is the directory that the summary writer has made before.
\<close>

definition mkdir :: "string \<Rightarrow> world \<Rightarrow> outcome \<times> world" where
  "mkdir p w =
     (if isdir w p \<or> isfile w p then (Raise FileExistsError, w)
      else (Done, w\<lparr>dirs := insert p (dirs w)\<rparr>))"

definition save_images :: "string \<Rightarrow> tensor \<Rightarrow> tensor \<Rightarrow> tensor \<Rightarrow> world \<Rightarrow> outcome \<times> world" where
  "save_images output_fname batch_rgb_fake batch_rgb_real batch_bw w =
     (case out_image batch_rgb_fake batch_rgb_real batch_bw of
        None \<Rightarrow> (Raise ValueError, w)
      | Some img \<Rightarrow>
          (Done, w\<lparr>files := (files w)(output_fname \<mapsto> Image img),
                    trace := trace w @ [Wrote output_fname]\<rparr>))"

text \<open>
  \<^verbatim>\<open>sgru_model.save(path)\<close>; the snapshot is tagged with the step that wrote it.
\<close>

definition model_save :: "string \<Rightarrow> nat \<Rightarrow> nat \<Rightarrow> world \<Rightarrow> world" where
  "model_save path epoch batch_num w =
     w\<lparr>files := (files w)(path \<mapsto> Checkpoint epoch batch_num), trace := trace w @ [Saved path]\<rparr>"

fun for_each :: "('i \<Rightarrow> world \<Rightarrow> outcome \<times> world) \<Rightarrow> 'i list \<Rightarrow> world \<Rightarrow> outcome \<times> world" where
  "for_each body [] w = (Done, w)"
| "for_each body (i # rest) w =
     (case body i w of
        (Done, w') \<Rightarrow> for_each body rest w'
      | (failure, w') \<Rightarrow> (failure, w'))"

text \<open>Lines 145 to 167: the body of the loop over the batches.\<close>

definition step :: "env \<Rightarrow> args \<Rightarrow> string \<Rightarrow> nat \<Rightarrow> nat \<Rightarrow> world \<Rightarrow> outcome \<times> world" where
  "step e a out_dir epoch batch_num w =
     (case run e epoch batch_num of
        (images_rgb_fake_out, batch_rgb, batch_bw) \<Rightarrow>
          (let w1 = w\<lparr>trace := trace w @ [Stepped epoch batch_num]\<rparr> in
           if save_every a = 0 then (Raise ZeroDivisionError, w1)
           else if int batch_num mod save_every a = 0 then
             (let image_dir = path_join out_dir ''images'' in
              case (if \<not> isdir w1 image_dir then mkdir image_dir w1 else (Done, w1)) of
                (Done, w2) \<Rightarrow>
                  (case save_images (path_join image_dir (image_name epoch batch_num))
                          images_rgb_fake_out batch_rgb batch_bw w2 of
                     (Done, w3) \<Rightarrow>
                       (Done, model_save (path_join out_dir ''model.ckpt'') epoch batch_num w3)
                   | (failure, w3) \<Rightarrow> (failure, w3))
              | (failure, w2) \<Rightarrow> (failure, w2))
           else (Done, w1)))"

text \<open>
  Modelled from the spec: the batch source (\<^verbatim>\<open>image_generator.py\<close>, not among the
  sources) runs a pool of worker processes whose count is configurable.
\<close>

definition start_workers :: "int \<Rightarrow> world \<Rightarrow> world" where
  "start_workers n w = w\<lparr>workers := nat n\<rparr>"

definition train :: "env \<Rightarrow> args \<Rightarrow> world \<Rightarrow> outcome \<times> world" where
  "train e a w =
     (let out_dir = path_join (output_dir a) (name a);
          w1 = w\<lparr>dirs := insert out_dir (dirs w), trace := trace w @ [Opened out_dir]\<rparr>;
          w2 = start_workers (num_cpus a) w1
      in for_each (\<lambda>epoch. for_each (step e a out_dir epoch) [0..<num_batches e])
           [0..<nat (epochs a)] w2)"

definition missing_checkpoint_message :: string where
  "missing_checkpoint_message =
     ''Download VGG19 checkpoint from '' @
     ''http://download.tensorflow.org/models/vgg_19_2016_08_28.tar.gz '' @
     ''and save it to the root of your data_dir''"

definition main :: "env \<Rightarrow> args \<Rightarrow> world \<Rightarrow> outcome \<times> world" where
  "main e a w =
     (if \<not> isfile w (path_join (data_dir a) ''vgg_19.ckpt'')
      then (SystemExit missing_checkpoint_message, w)
      else train e a (w\<lparr>trace := trace w @ [Built_graph]\<rparr>))"


section \<open>Definitions that follow the specification\<close>

text \<open>
  The feature extraction wrapper with the normalization step (line 21) deleted.
\<close>

definition vgg_19_evaluate_unnormalized :: "network \<Rightarrow> tensor \<Rightarrow> end_points option" where
  "vgg_19_evaluate_unnormalized vgg_19 img = Some (vgg_19 img)"

text \<open>
  Modelled from the spec: the generator (\<^verbatim>\<open>model.py\<close>, not among the sources) produces
  a bundle of N three-channel candidates, concatenated along the channel axis.
  \<open>reassemble\<close> is that concatenation of a list of tensors, and \<open>slice_bundle\<close> is the list
  of the slices that line 52 takes.
\<close>

definition concat_channels :: "tensor \<Rightarrow> tensor \<Rightarrow> tensor" where
  "concat_channels s t =
     map (\<lambda>(a, b). map (\<lambda>(r, q). map (\<lambda>(px, py). px @ py) (zip r q)) (zip a b)) (zip s t)"

fun reassemble :: "tensor list \<Rightarrow> tensor" where
  "reassemble [] = []"
| "reassemble [t] = t"
| "reassemble (t # ts) = concat_channels t (reassemble ts)"

definition slice_bundle :: "tensor \<Rightarrow> tensor list" where
  "slice_bundle bundle =
     map (\<lambda>i. slice_channels (i * 3) ((i + 1) * 3) bundle) [0..<collection_size]"


text \<open>
  The tiles of one row of the visualization, from left to right: the grayscale image
  as three equal channels, the ground truth, and the 9 candidates.
\<close>

definition tiles :: "u8image \<Rightarrow> u8image \<Rightarrow> u8image \<Rightarrow> u8image list" where
  "tiles image_bw image_rgb_real collection_fake =
     [map (map (\<lambda>px. replicate 3 (hd px))) image_bw, image_rgb_real] @
     map (\<lambda>i. map (map (\<lambda>px. drop (i * 3) (take ((i + 1) * 3) px))) collection_fake) [0..<9]"





text \<open>
  The perceptual loss in the words of the specification. The extents of a tensor are
  read off its first entries. A pair of activations is aligned for the loss when both
  are rectangular of the same extents and the resampled mask has these extents with a
  single channel. The score of a layer is the sum over all elements (batch, rows,
  columns, channels) of the weight times the resampled mask times the absolute
  difference of the activations; the score of a candidate is the sum of the scores of
  the weighted layers.
\<close>

definition chans :: "tensor \<Rightarrow> nat" where
  "chans t =
     (case t of [] \<Rightarrow> 0
      | img # _ \<Rightarrow> (case img of [] \<Rightarrow> 0
          | row # _ \<Rightarrow> (case row of [] \<Rightarrow> 0 | px # _ \<Rightarrow> length px)))"

definition aligned :: "resizer \<Rightarrow> tensor \<Rightarrow> tensor \<Rightarrow> tensor \<Rightarrow> bool" where
  "aligned resize_images image_bw act_fake act_real \<longleftrightarrow>
     has_shape act_fake (length act_fake) (rows act_fake) (cols act_fake) (chans act_fake) \<and>
     has_shape act_real (length act_fake) (rows act_fake) (cols act_fake) (chans act_fake) \<and>
     has_shape (resize_images image_bw (rows act_fake, cols act_fake))
       (length act_fake) (rows act_fake) (cols act_fake) 1"

definition layer_score :: "real \<Rightarrow> tensor \<Rightarrow> tensor \<Rightarrow> tensor \<Rightarrow> real" where
  "layer_score weight resampled act_fake act_real =
     (\<Sum>b<length act_fake. \<Sum>h<rows act_fake. \<Sum>w<cols act_fake. \<Sum>c<chans act_fake.
        weight * (resampled ! b ! h ! w ! 0) *
        \<bar>act_fake ! b ! h ! w ! c - act_real ! b ! h ! w ! c\<bar>)"

definition layer_term :: "network \<Rightarrow> resizer \<Rightarrow> tensor \<Rightarrow> tensor \<Rightarrow> tensor \<Rightarrow> real \<Rightarrow> string \<Rightarrow> real" where
  "layer_term vgg_19 resize_images image_bw image_rgb_real image_rgb_fake weight layer =
     (case activations layer image_rgb_fake image_rgb_real
             (vgg_19 image_rgb_fake) (vgg_19 image_rgb_real) of
        None \<Rightarrow> 0
      | Some (act_fake, act_real) \<Rightarrow>
          layer_score weight (resize_images image_bw (rows act_fake, cols act_fake))
            act_fake act_real)"

definition candidate_score ::
  "real list \<Rightarrow> network \<Rightarrow> resizer \<Rightarrow> tensor \<Rightarrow> tensor \<Rightarrow> tensor \<Rightarrow> real" where
  "candidate_score weights vgg_19 resize_images image_bw image_rgb_real image_rgb_fake =
     (\<Sum>(weight, layer)\<leftarrow>zip weights layers.
        layer_term vgg_19 resize_images image_bw image_rgb_real image_rgb_fake weight layer)"

definition rgb :: "tensor \<Rightarrow> bool" where
  "rgb t \<longleftrightarrow> (\<forall>img \<in> set t. \<forall>row \<in> set img. \<forall>px \<in> set row. length px = 3)"

definition candidate_ready :: "network \<Rightarrow> resizer \<Rightarrow> tensor \<Rightarrow> tensor \<Rightarrow> tensor \<Rightarrow> bool" where
  "candidate_ready vgg_19 resize_images image_bw image_rgb_real image_rgb_fake \<longleftrightarrow>
     rgb image_rgb_fake \<and>
     (\<forall>layer \<in> set layers.
        case activations layer image_rgb_fake image_rgb_real
               (vgg_19 image_rgb_fake) (vgg_19 image_rgb_real) of
          None \<Rightarrow> False
        | Some (act_fake, act_real) \<Rightarrow> aligned resize_images image_bw act_fake act_real)"

definition candidate :: "nat \<Rightarrow> tensor \<Rightarrow> tensor" where
  "candidate i images_rgb_fake = slice_channels (i * 3) ((i + 1) * 3) images_rgb_fake"

definition bundle_ready :: "network \<Rightarrow> resizer \<Rightarrow> tensor \<Rightarrow> tensor \<Rightarrow> tensor \<Rightarrow> bool" where
  "bundle_ready vgg_19 resize_images image_bw images_rgb_fake image_rgb_real \<longleftrightarrow>
     rgb image_rgb_real \<and>
     (\<forall>i \<in> set [0..<collection_size].
        candidate_ready vgg_19 resize_images image_bw image_rgb_real
          (candidate i images_rgb_fake))"

definition nonneg :: "tensor \<Rightarrow> bool" where
  "nonneg t \<longleftrightarrow> (\<forall>img \<in> set t. \<forall>row \<in> set img. \<forall>px \<in> set row. \<forall>x \<in> set px. 0 \<le> x)"

text \<open>
  What the loss needs of \<^verbatim>\<open>tf.image.resize_images\<close>: an interpolation whose result is a
  mean with weights that are not negative (the bilinear default is one) keeps a mask
  that is not negative so.
\<close>

definition keeps_nonneg :: "resizer \<Rightarrow> bool" where
  "keeps_nonneg resize_images \<longleftrightarrow>
     (\<forall>m shp. nonneg m \<longrightarrow> nonneg (resize_images m shp))"

text \<open>
  A candidate matches the ground truth at a layer under the mask when the activations
  agree at every element where the resampled mask is not 0.
\<close>

definition matches_under_mask :: "tensor \<Rightarrow> tensor \<Rightarrow> tensor \<Rightarrow> bool" where
  "matches_under_mask resampled act_fake act_real \<longleftrightarrow>
     (\<forall>b<length act_fake. \<forall>h<rows act_fake. \<forall>w<cols act_fake. \<forall>c<chans act_fake.
        resampled ! b ! h ! w ! 0 = 0 \<or> act_fake ! b ! h ! w ! c = act_real ! b ! h ! w ! c)"

definition layer_matches :: "network \<Rightarrow> resizer \<Rightarrow> tensor \<Rightarrow> tensor \<Rightarrow> tensor \<Rightarrow> string \<Rightarrow> bool" where
  "layer_matches vgg_19 resize_images image_bw image_rgb_real image_rgb_fake layer \<longleftrightarrow>
     (case activations layer image_rgb_fake image_rgb_real
             (vgg_19 image_rgb_fake) (vgg_19 image_rgb_real) of
        None \<Rightarrow> True
      | Some (act_fake, act_real) \<Rightarrow>
          matches_under_mask (resize_images image_bw (rows act_fake, cols act_fake))
            act_fake act_real)"

definition bundle_matches :: "network \<Rightarrow> resizer \<Rightarrow> tensor \<Rightarrow> tensor \<Rightarrow> tensor \<Rightarrow> bool" where
  "bundle_matches vgg_19 resize_images image_bw images_rgb_fake image_rgb_real \<longleftrightarrow>
     (\<forall>i \<in> set [0..<collection_size]. \<forall>layer \<in> set layers.
        layer_matches vgg_19 resize_images image_bw image_rgb_real
          (candidate i images_rgb_fake) layer)"


section \<open>Properties of the blend\<close>

lemma reduce_min_Min:
  assumes "losses \<noteq> []"
  shows "reduce_min losses = Some (Min (set losses))"
proof (cases losses)
  case Nil
  with assms show ?thesis by simp
next
  case (Cons x xs)
  then show ?thesis using Min.set_eq_fold [of x xs] by simp
qed

lemma blend_formula:
  assumes "losses \<noteq> []"
  shows "blend losses =
    Some (0.999 * Min (set losses) + 0.001 * (sum_list losses / real (length losses)))"
  using assms by (simp add: blend_def reduce_min_Min reduce_mean_def)

lemma those_ok_length: "those_ok xs = Some ys \<Longrightarrow> length ys = length xs"
  by (induction xs arbitrary: ys) (auto split: option.splits)

lemma candidate_losses_length:
  "candidate_losses n weights vgg_19 resize_images image_bw images_rgb_fake image_rgb_real
     = Some losses \<Longrightarrow> length losses = n"
  by (auto simp: candidate_losses_def split: option.splits dest: those_ok_length)

text \<open>
  C1. The loss that \<open>build_loss_func\<close> returns is 0.999 times the minimum of the 9
  losses of the candidates plus 0.001 times their mean, whenever the losses of the
  candidates are defined. With 2 candidates and a single layer of weight 1 whose
  losses are 10 and 20, the loss is 0.999 * 10 + 0.001 * 15 = 10.005.
\<close>

theorem build_loss_func_blend:
  "build_loss_func vgg_19 resize_images image_bw images_rgb_fake image_rgb_real =
     (case candidate_losses collection_size lambda_weights vgg_19 resize_images image_bw
             images_rgb_fake image_rgb_real of
        None \<Rightarrow> None
      | Some losses \<Rightarrow>
          Some (0.999 * Min (set losses) + 0.001 * (sum_list losses / 9)))
   \<and> loss_collection [1] (\<lambda>_. Map.empty) (\<lambda>m _. m) [[[[1]]]] [[[[0, 0, 0]]]] Map.empty
        [[[[10, 0, 0]]]] = Some 10
   \<and> loss_collection [1] (\<lambda>_. Map.empty) (\<lambda>m _. m) [[[[1]]]] [[[[0, 0, 0]]]] Map.empty
        [[[[20, 0, 0]]]] = Some 20
   \<and> build_loss_func_with 2 [1] (\<lambda>_. Map.empty) (\<lambda>m _. m) [[[[1]]]]
        [[[[10, 0, 0, 20, 0, 0]]]] [[[[0, 0, 0]]]] = Some 10.005"
proof -
  have general: "build_loss_func vgg_19 resize_images image_bw images_rgb_fake image_rgb_real =
     (case candidate_losses collection_size lambda_weights vgg_19 resize_images image_bw
             images_rgb_fake image_rgb_real of
        None \<Rightarrow> None
      | Some losses \<Rightarrow>
          Some (0.999 * Min (set losses) + 0.001 * (sum_list losses / 9)))"
  proof (cases "candidate_losses collection_size lambda_weights vgg_19 resize_images image_bw
             images_rgb_fake image_rgb_real")
    case None
    then show ?thesis by (simp add: build_loss_func_def build_loss_func_with_def)
  next
    case (Some losses)
    then have len: "length losses = 9"
      using candidate_losses_length [OF Some] by (simp add: collection_size_def)
    then have "losses \<noteq> []" by auto
    from blend_formula [OF this] Some len show ?thesis
      by (simp add: build_loss_func_def build_loss_func_with_def)
  qed
  have a: "loss_collection [1] (\<lambda>_. Map.empty) (\<lambda>m _. m) [[[[1]]]] [[[[0, 0, 0]]]] Map.empty
        [[[[10, 0, 0]]]] = Some 10"
    by (simp add: vgg_19_evaluate_def image_normalized_def tbinop_def bcast_def tmap_def vgg_mean_def
        loss_collection_def losses_collection_def layers_def activations_def layer_loss_def
        rows_def cols_def reduce_sum_def)
  have b: "loss_collection [1] (\<lambda>_. Map.empty) (\<lambda>m _. m) [[[[1]]]] [[[[0, 0, 0]]]] Map.empty
        [[[[20, 0, 0]]]] = Some 20"
    by (simp add: vgg_19_evaluate_def image_normalized_def tbinop_def bcast_def tmap_def vgg_mean_def
        loss_collection_def losses_collection_def layers_def activations_def layer_loss_def
        rows_def cols_def reduce_sum_def)
  have c: "build_loss_func_with 2 [1] (\<lambda>_. Map.empty) (\<lambda>m _. m) [[[[1]]]]
        [[[[10, 0, 0, 20, 0, 0]]]] [[[[0, 0, 0]]]] = Some 10.005"
    by (simp add: build_loss_func_with_def candidate_losses_def vgg_19_evaluate_def
        image_normalized_def tbinop_def bcast_def tmap_def vgg_mean_def loss_collection_def
        losses_collection_def layers_def activations_def layer_loss_def rows_def cols_def
        slice_channels_def reduce_sum_def blend_def reduce_mean_def upt_rec numeral_2_eq_2)
  from general a b c show ?thesis by blast
qed

text \<open>
  C1, the number of the scenario: the blend of the losses 10 and 20 is 10.005, which
  is not the 9.9975 of the specification.
\<close>

theorem blend_scenario_counterexample:
  "blend [10, 20] = Some 10.005 \<and> blend [10, 20] \<noteq> Some 9.9975"
  by (simp add: blend_def reduce_mean_def)

section \<open>Broadcasting\<close>

lemma those_ok_map:
  "(\<And>x. x \<in> set xs \<Longrightarrow> f x = Some (g x)) \<Longrightarrow> those_ok (map f xs) = Some (map g xs)"
  by (induction xs) simp_all

lemma bcast_same:
  assumes "length xs = length ys"
    and "\<And>x y. (x, y) \<in> set (zip xs ys) \<Longrightarrow> f x y = Some (g x y)"
  shows "bcast f xs ys = Some (map (\<lambda>(x, y). g x y) (zip xs ys))"
proof -
  have "those_ok (map (\<lambda>(x, y). f x y) (zip xs ys)) = Some (map (\<lambda>(x, y). g x y) (zip xs ys))"
    by (rule those_ok_map) (use assms(2) in auto)
  with assms(1) show ?thesis by (simp add: bcast_def)
qed

lemma bcast_right1:
  assumes "\<And>x. x \<in> set xs \<Longrightarrow> f x y = Some (g x)"
  shows "bcast f xs [y] = Some (map g xs)"
proof (cases "length xs = 1")
  case True
  then obtain x where xs: "xs = [x]" by (cases xs) auto
  with assms show ?thesis by (simp add: bcast_def)
next
  case False
  have "those_ok (map (\<lambda>x. f x y) xs) = Some (map g xs)"
    by (rule those_ok_map) (use assms in auto)
  with False show ?thesis by (simp add: bcast_def)
qed

lemma bcast_left1:
  assumes "\<And>y. y \<in> set ys \<Longrightarrow> f x y = Some (g y)"
  shows "bcast f [x] ys = Some (map g ys)"
proof (cases "length ys = 1")
  case True
  then obtain y where ys: "ys = [y]" by (cases ys) auto
  with assms show ?thesis by (simp add: bcast_def)
next
  case False
  have "those_ok (map (f x) ys) = Some (map g ys)"
    by (rule those_ok_map) (use assms in auto)
  with False show ?thesis by (simp add: bcast_def)
qed

lemma has_shape_tmap: "has_shape (tmap f t) B H W C = has_shape t B H W C"
  by (auto simp: has_shape_def tmap_def)

lemma tbinop_bias:
  assumes "has_shape t B H W C" and len: "length v = C"
  shows "tbinop f t [[[v]]] =
    Some (map (map (map (\<lambda>px. map (\<lambda>(x, m). f x m) (zip px v)))) t)"
proof -
  have px: "bcast (\<lambda>a b. Some (f a b)) px v = Some (map (\<lambda>(x, m). f x m) (zip px v))"
    if "length px = C" for px
    by (rule bcast_same) (use that len in auto)
  have row: "bcast (bcast (\<lambda>a b. Some (f a b))) row [v]
      = Some (map (\<lambda>px. map (\<lambda>(x, m). f x m) (zip px v)) row)"
    if "\<forall>px \<in> set row. length px = C" for row
    by (rule bcast_right1) (use that px in auto)
  have im: "bcast (bcast (bcast (\<lambda>a b. Some (f a b)))) im [[v]]
      = Some (map (map (\<lambda>px. map (\<lambda>(x, m). f x m) (zip px v))) im)"
    if "\<forall>row \<in> set im. \<forall>px \<in> set row. length px = C" for im
    by (rule bcast_right1) (use that row in auto)
  show ?thesis
    unfolding tbinop_def
    by (rule bcast_right1) (use assms im in \<open>auto simp: has_shape_def\<close>)
qed

lemma image_normalized_rgb:
  assumes "has_shape img B H W 3"
  shows "image_normalized img \<noteq> None"
  unfolding image_normalized_def
  using tbinop_bias [of "tmap (\<lambda>x. x * 255.0) img" B H W 3 vgg_mean "(-)"] assms
  by (simp add: has_shape_tmap vgg_mean_def)


section \<open>The feature extractor ignores its normalization\<close>

text \<open>
  C9. For every image batch of three channels, \<open>vgg_19_evaluate\<close> computes the normalized
  image (the input times 255 minus the channel means) and then hands the input itself
  to the network: its result is the end points of the input, the same as with the
  normalization step deleted. Whatever the input, a result that it returns is the
  network's end points of the input.
\<close>

theorem vgg_19_evaluate_ignores_normalization:
  assumes "has_shape img B H W 3"
  shows "(\<exists>normalized. image_normalized img = Some normalized)
    \<and> vgg_19_evaluate vgg_19 img = Some (vgg_19 img)
    \<and> vgg_19_evaluate vgg_19 img = vgg_19_evaluate_unnormalized vgg_19 img
    \<and> (\<forall>img' features. vgg_19_evaluate vgg_19 img' = Some features \<longrightarrow> features = vgg_19 img')"
  using image_normalized_rgb [OF assms]
  by (auto simp: vgg_19_evaluate_def vgg_19_evaluate_unnormalized_def split: option.splits)

theorem vgg_19_evaluate_ignores_normalization_witness:
  "has_shape [[[[1, 1, 1]]]] 1 1 1 3
   \<and> image_normalized [[[[1, 1, 1]]]] = Some [[[[151.061, 138.221, 131.32]]]]
   \<and> vgg_19_evaluate (\<lambda>t. [''input'' \<mapsto> t]) [[[[1, 1, 1]]]]
       = Some [''input'' \<mapsto> [[[[1, 1, 1]]]]]"
proof -
  have shape: "has_shape [[[[1, 1, 1]]]] 1 1 1 3"
    by (simp add: has_shape_def)
  have norm: "image_normalized [[[[1, 1, 1]]]] = Some [[[[151.061, 138.221, 131.32]]]]"
    by (simp add: image_normalized_def tbinop_def bcast_def tmap_def vgg_mean_def)
  from vgg_19_evaluate_ignores_normalization [OF shape, of "\<lambda>t. [''input'' \<mapsto> t]"]
  have "vgg_19_evaluate (\<lambda>t. [''input'' \<mapsto> t]) [[[[1, 1, 1]]]]
       = Some [''input'' \<mapsto> [[[[1, 1, 1]]]]]"
    by (rule conjE) (erule conjE, assumption)
  with shape norm show ?thesis by (intro conjI)
qed


section \<open>The missing checkpoint\<close>

text \<open>
  C3. When the pretrained checkpoint \<^verbatim>\<open>vgg_19.ckpt\<close> is not a file of the data directory,
  \<open>main\<close> exits with the message that tells where to download it and where to save it,
  the exit status is not 0, and nothing has happened before: no directory is made, no
  file is written, no worker is started and no graph is built.
\<close>

theorem main_missing_checkpoint:
  assumes "\<not> isfile w (path_join (data_dir a) ''vgg_19.ckpt'')"
  shows "main e a w = (SystemExit missing_checkpoint_message, w)
    \<and> exit_status (fst (main e a w)) \<noteq> 0
    \<and> dirs (snd (main e a w)) = dirs w
    \<and> files (snd (main e a w)) = files w
    \<and> workers (snd (main e a w)) = workers w
    \<and> trace (snd (main e a w)) = trace w"
  using assms by (simp add: main_def)

theorem main_missing_checkpoint_witness:
  "\<not> isfile \<lparr>dirs = {''data''}, files = Map.empty, workers = 0, trace = []\<rparr>
       (path_join (data_dir (get_args ''data'' ''out'' ''sgru'')) ''vgg_19.ckpt'')
   \<and> main \<lparr>num_batches = 3, run = \<lambda>epoch batch_num. ([], [], [])\<rparr>
        (get_args ''data'' ''out'' ''sgru'')
        \<lparr>dirs = {''data''}, files = Map.empty, workers = 0, trace = []\<rparr>
      = (SystemExit missing_checkpoint_message,
         \<lparr>dirs = {''data''}, files = Map.empty, workers = 0, trace = []\<rparr>)
   \<and> exit_status (SystemExit missing_checkpoint_message) = 1"
proof -
  have missing: "\<not> isfile \<lparr>dirs = {''data''}, files = Map.empty, workers = 0, trace = []\<rparr>
       (path_join (data_dir (get_args ''data'' ''out'' ''sgru'')) ''vgg_19.ckpt'')"
    by (simp add: isfile_def)
  from main_missing_checkpoint [OF missing,
      of "\<lparr>num_batches = 3, run = \<lambda>epoch batch_num. ([], [], [])\<rparr>"]
  have "main \<lparr>num_batches = 3, run = \<lambda>epoch batch_num. ([], [], [])\<rparr>
        (get_args ''data'' ''out'' ''sgru'')
        \<lparr>dirs = {''data''}, files = Map.empty, workers = 0, trace = []\<rparr>
      = (SystemExit missing_checkpoint_message,
         \<lparr>dirs = {''data''}, files = Map.empty, workers = 0, trace = []\<rparr>)"
    by (rule conjunct1)
  moreover have "exit_status (SystemExit missing_checkpoint_message) = 1" by simp
  ultimately show ?thesis using missing by (intro conjI)
qed


section \<open>Slicing a bundle and putting it together again\<close>

lemma slice_step: "drop (n * k) (take ((n + 1) * k) xs) = take k (drop (n * k) xs)"
  by (simp add: drop_take)

lemma concat_upt_Suc: "concat (map F [0..<Suc n]) = concat (map F [0..<n]) @ F n"
  by simp

lemma concat_chunks:
  "concat (map (\<lambda>i. take k (drop (i * k) xs)) [0..<n]) = take (n * k) xs"
proof (induction n)
  case 0
  show ?case by simp
next
  case (Suc n)
  have "take (n * k) xs @ take k (drop (n * k) xs) = take (n * k + k) xs"
    by (simp add: take_add)
  moreover have "n * k + k = Suc n * k" by simp
  ultimately have "take (n * k) xs @ take k (drop (n * k) xs) = take (Suc n * k) xs"
    by (simp only:)
  then show ?case
    by (simp only: concat_upt_Suc Suc.IH)
qed

lemma concat_slices:
  "concat (map (\<lambda>i. drop (i * k) (take ((i + 1) * k) xs)) [0..<n]) = take (n * k) xs"
  by (simp only: slice_step concat_chunks)

lemma concat_channels_map:
  "concat_channels (map (map (map f)) t) (map (map (map g)) t)
     = map (map (map (\<lambda>px. f px @ g px))) t"
  by (simp add: concat_channels_def zip_map_map zip_same_conv_map)

lemma reassemble_map:
  "js \<noteq> [] \<Longrightarrow>
   reassemble (map (\<lambda>i. map (map (map (g i))) t) js)
     = map (map (map (\<lambda>px. concat (map (\<lambda>i. g i px) js)))) t"
proof (induction js rule: induct_list012)
  case 1
  then show ?case by simp
next
  case (2 j)
  show ?case by simp
next
  case (3 j k js)
  then show ?case by (simp add: concat_channels_map)
qed

text \<open>
  C7. A bundle of 27 channels is the concatenation along the channel axis of its 9
  slices of 3 channels at the offsets 0, 3, ..., 24.
\<close>

theorem slice_reassemble_roundtrip:
  assumes "has_shape bundle B H W 27"
  shows "reassemble (slice_bundle bundle) = bundle"
proof -
  have "reassemble (slice_bundle bundle)
      = map (map (map (\<lambda>px. concat (map (\<lambda>i. drop (i * 3) (take ((i + 1) * 3) px)) [0..<9])))) bundle"
    unfolding slice_bundle_def slice_channels_def collection_size_def
    by (rule reassemble_map) simp
  also have "\<dots> = map (map (map (\<lambda>px. take (9 * 3) px))) bundle"
    by (simp only: concat_slices)
  also have "\<dots> = bundle"
    using assms by (auto simp: has_shape_def map_idI)
  finally show ?thesis .
qed

theorem slice_reassemble_roundtrip_witness:
  "has_shape [[[[1, 2, 3, 4, 5, 6, 7, 8, 9, 10, 11, 12, 13, 14, 15, 16, 17, 18, 19, 20, 21,
                 22, 23, 24, 25, 26, 27]]]] 1 1 1 27
   \<and> reassemble (slice_bundle [[[[1, 2, 3, 4, 5, 6, 7, 8, 9, 10, 11, 12, 13, 14, 15, 16, 17,
                 18, 19, 20, 21, 22, 23, 24, 25, 26, 27]]]])
      = [[[[1, 2, 3, 4, 5, 6, 7, 8, 9, 10, 11, 12, 13, 14, 15, 16, 17, 18, 19, 20, 21,
            22, 23, 24, 25, 26, 27]]]]
   \<and> slice_channels (1 * 3) ((1 + 1) * 3)
        [[[[1, 2, 3, 4, 5, 6, 7, 8, 9, 10, 11, 12, 13, 14, 15, 16, 17, 18, 19, 20, 21,
            22, 23, 24, 25, 26, 27]]]] = [[[[4, 5, 6]]]]"
proof -
  have shape: "has_shape [[[[1, 2, 3, 4, 5, 6, 7, 8, 9, 10, 11, 12, 13, 14, 15, 16, 17, 18,
                 19, 20, 21, 22, 23, 24, 25, 26, 27]]]] 1 1 1 27"
    by (simp add: has_shape_def)
  have slice: "slice_channels (1 * 3) ((1 + 1) * 3)
        [[[[1, 2, 3, 4, 5, 6, 7, 8, 9, 10, 11, 12, 13, 14, 15, 16, 17, 18, 19, 20, 21,
            22, 23, 24, 25, 26, 27 :: real]]]] = [[[[4, 5, 6]]]]"
    by (simp add: slice_channels_def)
  from slice_reassemble_roundtrip [OF shape] shape slice show ?thesis
    by simp
qed


section \<open>The conversion to bytes\<close>


section \<open>The tiled visualization\<close>

lemma has_shape_images:
  "has_shape t B H W C \<longleftrightarrow> length t = B \<and> (\<forall>img \<in> set t. image_shape img H W C)"
  by (auto simp: has_shape_def image_shape_def)

lemma uniformI: "(\<And>k. k \<in> set ns \<Longrightarrow> k = n) \<Longrightarrow> uniform ns"
  by (cases ns) (auto simp: uniform_def list_all_iff)

lemma nth_concat_uniform:
  "(\<And>xs. xs \<in> set xss \<Longrightarrow> length xs = n) \<Longrightarrow> k < length xss \<Longrightarrow> w < n
     \<Longrightarrow> concat xss ! (k * n + w) = xss ! k ! w"
proof (induction xss arbitrary: k)
  case Nil
  then show ?case by simp
next
  case (Cons xs xss)
  show ?case
  proof (cases k)
    case 0
    with Cons.prems show ?thesis by (simp add: nth_append)
  next
    case (Suc j)
    have "length xs = n" using Cons.prems(1) by simp
    moreover have "concat xss ! (j * n + w) = xss ! j ! w"
      using Cons.prems Suc by (intro Cons.IH) auto
    ultimately show ?thesis using Suc by (simp add: nth_append)
  qed
qed

lemma length_concat_uniform:
  "(\<And>xs. xs \<in> set xss \<Longrightarrow> length xs = n) \<Longrightarrow> length (concat xss) = length xss * n"
  by (induction xss) auto

lemma pixel_sizes_shape:
  "image_shape img H W C \<Longrightarrow> k \<in> set (pixel_sizes img) \<Longrightarrow> k = C"
  by (auto simp: image_shape_def pixel_sizes_def)

lemma hstack_shaped:
  assumes "tup \<noteq> []" and "\<And>img. img \<in> set tup \<Longrightarrow> image_shape img H W C"
  shows "hstack tup = Some (map (\<lambda>h. concat (map (\<lambda>img. img ! h) tup)) [0..<H])"
proof -
  have "uniform (map length tup)"
    by (rule uniformI [where n = H]) (use assms(2) in \<open>auto simp: image_shape_def\<close>)
  moreover have "uniform (concat (map pixel_sizes tup))"
    by (rule uniformI [where n = C]) (use assms(2) in \<open>auto dest: pixel_sizes_shape\<close>)
  moreover have "length (hd tup) = H"
    using assms by (cases tup) (auto simp: image_shape_def)
  ultimately show ?thesis using assms(1) by (simp add: hstack_def)
qed

lemma hstack_image_shape:
  assumes "\<And>img. img \<in> set tup \<Longrightarrow> image_shape img H W C"
  shows "image_shape (map (\<lambda>h. concat (map (\<lambda>img. img ! h) tup)) [0..<H]) H (length tup * W) C"
proof -
  have part: "length xs = W \<and> (\<forall>px \<in> set xs. length px = C)"
    if "h < H" and "xs \<in> set (map (\<lambda>img. img ! h) tup)" for h xs
  proof -
    from that(2) obtain img where img: "img \<in> set tup" and xs: "xs = img ! h" by auto
    from assms [OF img] that(1) have "img ! h \<in> set img"
      by (simp add: image_shape_def)
    with assms [OF img] xs show ?thesis by (simp add: image_shape_def)
  qed
  have len: "length (concat (map (\<lambda>img. img ! h) tup)) = length tup * W" if "h < H" for h
    using length_concat_uniform [of "map (\<lambda>img. img ! h) tup" W] part [OF that] by simp
  have px: "length px = C" if "h < H" and "px \<in> set (concat (map (\<lambda>img. img ! h) tup))" for h px
  proof -
    from that(2) obtain xs where "xs \<in> set (map (\<lambda>img. img ! h) tup)" and "px \<in> set xs"
      by auto
    with part [OF that(1)] show ?thesis by blast
  qed
  show ?thesis
    using len px by (auto simp: image_shape_def)
qed

lemma vstack_shaped:
  assumes "tup \<noteq> []" and "\<And>img. img \<in> set tup \<Longrightarrow> image_shape img H W C"
  shows "vstack tup = Some (concat tup)"
proof -
  have "uniform (map length (concat tup))"
    by (rule uniformI [where n = W]) (use assms(2) in \<open>auto simp: image_shape_def\<close>)
  moreover have "uniform (concat (map pixel_sizes tup))"
    by (rule uniformI [where n = C]) (use assms(2) in \<open>auto dest: pixel_sizes_shape\<close>)
  ultimately show ?thesis using assms(1) by (simp add: vstack_def)
qed

lemma cvtColor_shaped:
  assumes "image_shape img H W 1" and "0 < H" and "0 < W"
  shows "cvtColor_GRAY2BGR img = Some (map (map (\<lambda>px. replicate 3 (hd px))) img)"
proof -
  obtain row rest where img: "img = row # rest"
    using assms(1,2) by (cases img) (auto simp: image_shape_def)
  then have "length row = W" using assms(1) by (auto simp: image_shape_def)
  with assms(3) have "row \<noteq> []" by auto
  with img have "concat img \<noteq> []" by simp
  moreover have "list_all (list_all (\<lambda>px. length px = 1)) img"
    using assms(1) by (auto simp: image_shape_def list_all_iff)
  ultimately show ?thesis by (simp add: cvtColor_GRAY2BGR_def)
qed

lemma tiles_shape:
  assumes "image_shape ibw H W 1" and "image_shape ireal H W 3" and "image_shape ifake H W 27"
    and "img \<in> set (tiles ibw ireal ifake)"
  shows "image_shape img H W 3"
proof -
  have slice: "length (drop (i * 3) (take ((i + 1) * 3) px)) = 3"
    if "i < 9" and "length px = 27" for i and px :: "8 word list"
    using that by simp
  from assms(4) consider "img = map (map (\<lambda>px. replicate 3 (hd px))) ibw" | "img = ireal"
    | i where "i < 9" and "img = map (map (\<lambda>px. drop (i * 3) (take ((i + 1) * 3) px))) ifake"
    by (auto simp: tiles_def)
  then show ?thesis
  proof cases
    case 1
    with assms(1) show ?thesis by (auto simp: image_shape_def)
  next
    case 2
    with assms(2) show ?thesis by simp
  next
    case 3
    with assms(3) slice [OF 3(1)] show ?thesis by (auto simp: image_shape_def)
  qed
qed

lemma length_tiles: "length (tiles ibw ireal ifake) = 11"
  by (simp add: tiles_def)

lemma row_image_shaped:
  assumes "image_shape ibw H W 1" and "image_shape ireal H W 3" and "image_shape ifake H W 27"
    and "0 < H" and "0 < W"
  shows "row_image ibw ireal ifake =
    Some (map (\<lambda>h. concat (map (\<lambda>img. img ! h) (tiles ibw ireal ifake))) [0..<H])"
proof -
  have "tiles ibw ireal ifake \<noteq> []" by (simp add: tiles_def)
  then have "hstack (tiles ibw ireal ifake) =
      Some (map (\<lambda>h. concat (map (\<lambda>img. img ! h) (tiles ibw ireal ifake))) [0..<H])"
    by (rule hstack_shaped) (rule tiles_shape [OF assms(1-3)])
  then show ?thesis
    using cvtColor_shaped [OF assms(1,4,5)] by (simp add: row_image_def tiles_def)
qed

lemma row_image_shape:
  assumes "image_shape ibw H W 1" and "image_shape ireal H W 3" and "image_shape ifake H W 27"
  shows "image_shape (map (\<lambda>h. concat (map (\<lambda>img. img ! h) (tiles ibw ireal ifake))) [0..<H])
     H (11 * W) 3"
  using hstack_image_shape [of "tiles ibw ireal ifake" H W 3] tiles_shape [OF assms]
  by (simp add: length_tiles)

lemma row_image_nth:
  assumes "image_shape ibw H W 1" and "image_shape ireal H W 3" and "image_shape ifake H W 27"
    and "h < H" and "k < 11" and "w < W"
  shows "map (\<lambda>h. concat (map (\<lambda>img. img ! h) (tiles ibw ireal ifake))) [0..<H] ! h ! (k * W + w)
     = tiles ibw ireal ifake ! k ! h ! w"
proof -
  have len: "length xs = W" if "xs \<in> set (map (\<lambda>img. img ! h) (tiles ibw ireal ifake))" for xs
  proof -
    from that obtain img where img: "img \<in> set (tiles ibw ireal ifake)" and xs: "xs = img ! h"
      by auto
    from tiles_shape [OF assms(1-3) img] assms(4) have "img ! h \<in> set img"
      by (simp add: image_shape_def)
    with tiles_shape [OF assms(1-3) img] xs show ?thesis by (simp add: image_shape_def)
  qed
  have "concat (map (\<lambda>img. img ! h) (tiles ibw ireal ifake)) ! (k * W + w)
      = map (\<lambda>img. img ! h) (tiles ibw ireal ifake) ! k ! w"
    by (rule nth_concat_uniform) (use len assms(5,6) in \<open>simp_all add: length_tiles\<close>)
  then show ?thesis using assms(4,5) by (simp add: length_tiles)
qed

lemma image_shape_to_uint8:
  "has_shape t B H W C \<Longrightarrow> has_shape (to_uint8 t) B H W C"
  by (auto simp: has_shape_def to_uint8_def)

lemma has_shape_nth: "has_shape t B H W C \<Longrightarrow> b < B \<Longrightarrow> image_shape (t ! b) H W C"
  by (auto simp: has_shape_images)

lemma has_shape_batches:
  "has_shape t B H W C \<Longrightarrow> has_shape (batch_bw8 t) B H W C"
  "has_shape t B H W C \<Longrightarrow> has_shape (batch_real t) B H W C"
  "has_shape t B H W C \<Longrightarrow> has_shape (batch_fake t) B H W C"
  by (auto simp: has_shape_def to_uint8_def batch_bw8_def batch_real_def batch_fake_def
      clip01_def tmap_def)

lemma example_out_image:
  "out_image [[[[2, -1, 0.5, 0, 0, 0, 1, 1, 1, 0, 0, 0, 0, 0, 0, 0, 0, 0, 0, 0, 0, 0, 0, 0, 0, 0, 0]]]]
     [[[[0, 0.5, 1]]]] [[[[0.2]]]]
   = Some [[[51, 51, 51], [0, 127, 255], [255, 0, 127], [0, 0, 0], [255, 255, 255], [0, 0, 0],
            [0, 0, 0], [0, 0, 0], [0, 0, 0], [0, 0, 0], [0, 0, 0]]]"
  by (simp add: out_image_def batch_bw8_def batch_real_def batch_fake_def to_uint8_def clip01_def
      tmap_def astype_uint8_def trunc_def row_image_def cvtColor_GRAY2BGR_def hstack_def
      vstack_def uniform_def pixel_sizes_def upt_rec numeral_3_eq_3)

lemma example_shapes:
  "has_shape ([[[[0.2]]]] :: tensor) 1 1 1 1"
  "has_shape ([[[[0, 0.5, 1]]]] :: tensor) 1 1 1 3"
  "has_shape ([[[[2, -1, 0.5, 0, 0, 0, 1, 1, 1, 0, 0, 0, 0, 0, 0, 0, 0, 0, 0, 0, 0, 0, 0, 0, 0, 0, 0]]]] :: tensor) 1 1 1 27"
  by (simp_all add: has_shape_def)

text \<open>
  C8. For a batch of B examples of H rows and W columns (B, H and W at least 1: NumPy
  and OpenCV refuse an empty batch and an empty image) with 9 candidates, the array
  that \<open>save_images\<close> writes has B * H rows of 11 * W pixels, and its pixel in the row h
  of the example b and in the column w of the tile k is that pixel of the k-th tile of
  the example, the tiles being the grayscale image as three channels, the ground truth
  and the candidates 0 to 8.
\<close>

theorem out_image_tiling:
  assumes bw: "has_shape batch_bw B H W 1"
    and real: "has_shape batch_rgb_real B H W 3"
    and fake: "has_shape batch_rgb_fake B H W 27"
    and pos: "0 < B" "0 < H" "0 < W"
  shows "\<exists>img. out_image batch_rgb_fake batch_rgb_real batch_bw = Some img
    \<and> length img = B * H
    \<and> (\<forall>row \<in> set img. length row = 11 * W)
    \<and> (\<forall>b<B. \<forall>h<H. \<forall>k<11. \<forall>w<W.
          img ! (b * H + h) ! (k * W + w)
            = tiles (batch_bw8 batch_bw ! b) (batch_real batch_rgb_real ! b)
                (batch_fake batch_rgb_fake ! b) ! k ! h ! w)"
proof -
  let ?bw = "batch_bw8 batch_bw" and ?real = "batch_real batch_rgb_real"
    and ?fake = "batch_fake batch_rgb_fake"
  let ?Z = "zip ?bw (zip ?real ?fake)"
  let ?g = "\<lambda>(ibw, ireal, ifake).
    map (\<lambda>h. concat (map (\<lambda>img. img ! h) (tiles ibw ireal ifake))) [0..<H]"
  let ?rows = "map ?g ?Z"
  note sbw = has_shape_batches(1) [OF bw] and sreal = has_shape_batches(2) [OF real]
    and sfake = has_shape_batches(3) [OF fake]
  have lenZ: "length ?Z = B"
    using sbw sreal sfake by (simp add: has_shape_def)
  have shapes: "image_shape ibw H W 1 \<and> image_shape ireal H W 3 \<and> image_shape ifake H W 27"
    if "(ibw, ireal, ifake) \<in> set ?Z" for ibw ireal ifake
  proof -
    from that have "ibw \<in> set ?bw" and "(ireal, ifake) \<in> set (zip ?real ?fake)"
      by (auto dest: set_zip_leftD set_zip_rightD)
    then have "ibw \<in> set ?bw" and "ireal \<in> set ?real" and "ifake \<in> set ?fake"
      by (auto dest: set_zip_leftD set_zip_rightD)
    with sbw sreal sfake show ?thesis by (simp add: has_shape_images)
  qed
  have "those_ok (map (\<lambda>(image_bw, image_rgb_real, collection_fake).
            row_image image_bw image_rgb_real collection_fake) ?Z) = Some ?rows"
  proof (rule those_ok_map)
    fix z assume z: "z \<in> set ?Z"
    obtain ibw ireal ifake where eq: "z = (ibw, ireal, ifake)" by (cases z) auto
    with z shapes have "image_shape ibw H W 1" "image_shape ireal H W 3" "image_shape ifake H W 27"
      by auto
    from row_image_shaped [OF this pos(2,3)] eq
    show "(case z of (image_bw, image_rgb_real, collection_fake) \<Rightarrow>
            row_image image_bw image_rgb_real collection_fake) = Some (?g z)"
      by simp
  qed
  moreover have rows_shape: "image_shape r H (11 * W) 3" if "r \<in> set ?rows" for r
  proof -
    from that obtain z where z: "z \<in> set ?Z" and r: "r = ?g z" by auto
    obtain ibw ireal ifake where eq: "z = (ibw, ireal, ifake)" by (cases z) auto
    with z shapes have "image_shape ibw H W 1" "image_shape ireal H W 3" "image_shape ifake H W 27"
      by auto
    from row_image_shape [OF this] r eq show ?thesis by simp
  qed
  moreover have "?rows \<noteq> []"
    using lenZ pos(1) by auto
  then have "vstack ?rows = Some (concat ?rows)"
    by (rule vstack_shaped) (rule rows_shape)
  ultimately have out: "out_image batch_rgb_fake batch_rgb_real batch_bw = Some (concat ?rows)"
    by (simp add: out_image_def)
  have rows_len: "length r = H" if "r \<in> set ?rows" for r
    using rows_shape [OF that] by (simp add: image_shape_def)
  have height: "length (concat ?rows) = B * H"
    using length_concat_uniform [of ?rows H] rows_len lenZ by simp
  have width: "length row = 11 * W" if "row \<in> set (concat ?rows)" for row
  proof -
    from that obtain r where "r \<in> set ?rows" and "row \<in> set r"
      unfolding set_concat by blast
    with rows_shape [of r] show ?thesis by (simp add: image_shape_def)
  qed
  have layout: "concat ?rows ! (b * H + h) ! (k * W + w)
      = tiles (?bw ! b) (?real ! b) (?fake ! b) ! k ! h ! w"
    if "b < B" "h < H" "k < 11" "w < W" for b h k w
  proof -
    have "concat ?rows ! (b * H + h) = ?rows ! b ! h"
      by (rule nth_concat_uniform) (use rows_len that lenZ in simp_all)
    moreover have zb: "?Z ! b = (?bw ! b, ?real ! b, ?fake ! b)"
      using that(1) sbw sreal sfake by (simp add: has_shape_def)
    moreover have "image_shape (?bw ! b) H W 1" "image_shape (?real ! b) H W 3"
      "image_shape (?fake ! b) H W 27"
      using has_shape_nth [OF sbw that(1)] has_shape_nth [OF sreal that(1)]
        has_shape_nth [OF sfake that(1)] by auto
    from row_image_nth [OF this that(2,3,4)]
    have "?g (?Z ! b) ! h ! (k * W + w) = tiles (?bw ! b) (?real ! b) (?fake ! b) ! k ! h ! w"
      by (simp add: zb)
    ultimately show ?thesis using that(1) lenZ by simp
  qed
  from out height width layout show ?thesis by blast
qed


theorem out_image_tiling_witness:
  "has_shape ([[[[0.2]]]] :: tensor) 1 1 1 1
   \<and> has_shape ([[[[0, 0.5, 1]]]] :: tensor) 1 1 1 3
   \<and> has_shape ([[[[2, -1, 0.5, 0, 0, 0, 1, 1, 1, 0, 0, 0, 0, 0, 0, 0, 0, 0, 0, 0, 0, 0, 0, 0, 0, 0, 0]]]] :: tensor) 1 1 1 27
   \<and> (\<exists>img. out_image [[[[2, -1, 0.5, 0, 0, 0, 1, 1, 1, 0, 0, 0, 0, 0, 0, 0, 0, 0, 0, 0, 0, 0, 0, 0, 0, 0, 0]]]]
          [[[[0, 0.5, 1]]]] [[[[0.2]]]] = Some img
        \<and> length img = 1 * 1 \<and> (\<forall>row \<in> set img. length row = 11 * 1))
   \<and> out_image [[[[2, -1, 0.5, 0, 0, 0, 1, 1, 1, 0, 0, 0, 0, 0, 0, 0, 0, 0, 0, 0, 0, 0, 0, 0, 0, 0, 0]]]]
        [[[[0, 0.5, 1]]]] [[[[0.2]]]]
      = Some [[[51, 51, 51], [0, 127, 255], [255, 0, 127], [0, 0, 0], [255, 255, 255], [0, 0, 0],
            [0, 0, 0], [0, 0, 0], [0, 0, 0], [0, 0, 0], [0, 0, 0]]]"
proof -
  have pos: "(0::nat) < 1" by simp
  from out_image_tiling [OF example_shapes pos pos pos]
  have "\<exists>img. out_image [[[[2, -1, 0.5, 0, 0, 0, 1, 1, 1, 0, 0, 0, 0, 0, 0, 0, 0, 0, 0, 0, 0, 0, 0, 0, 0, 0, 0]]]]
          [[[[0, 0.5, 1]]]] [[[[0.2]]]] = Some img
        \<and> length img = 1 * 1 \<and> (\<forall>row \<in> set img. length row = 11 * 1)"
    by blast
  with example_shapes example_out_image show ?thesis by (intro conjI)
qed

section \<open>The periodic visualization and snapshot\<close>






lemma step_zero_interval:
  "save_every a = 0 \<Longrightarrow> fst (step e a out_dir epoch batch_num w) = Raise ZeroDivisionError"
  by (simp add: step_def split: prod.splits)



section \<open>The loss of a layer as a sum over its elements\<close>

lemma has_shape_nthD:
  assumes "has_shape t B H W C"
  shows "length t = B"
    and "b < B \<Longrightarrow> length (t ! b) = H"
    and "b < B \<Longrightarrow> h < H \<Longrightarrow> length (t ! b ! h) = W"
    and "b < B \<Longrightarrow> h < H \<Longrightarrow> w < W \<Longrightarrow> length (t ! b ! h ! w) = C"
proof -
  show len: "length t = B" using assms by (simp add: has_shape_def)
  have img: "image_shape (t ! b) H W C" if "b < B" for b
    using assms that by (simp add: has_shape_images)
  show l1: "length (t ! b) = H" if "b < B" using img [OF that] by (simp add: image_shape_def)
  show l2: "length (t ! b ! h) = W" if "b < B" "h < H"
    using img [OF that(1)] that(2) by (simp add: image_shape_def)
  show "length (t ! b ! h ! w) = C" if "b < B" "h < H" "w < W"
  proof -
    from that l1 have "t ! b ! h \<in> set (t ! b)" by simp
    moreover from that l2 have "t ! b ! h ! w \<in> set (t ! b ! h)" by simp
    ultimately show ?thesis using img [OF that(1)] by (simp add: image_shape_def)
  qed
qed

lemma has_shapeI:
  assumes "length t = B"
    and "\<And>b. b < B \<Longrightarrow> length (t ! b) = H"
    and "\<And>b h. b < B \<Longrightarrow> h < H \<Longrightarrow> length (t ! b ! h) = W"
    and "\<And>b h w. b < B \<Longrightarrow> h < H \<Longrightarrow> w < W \<Longrightarrow> length (t ! b ! h ! w) = C"
  shows "has_shape t B H W C"
  unfolding has_shape_def
proof (intro conjI ballI)
  show "length t = B" by fact
next
  fix img assume "img \<in> set t"
  then obtain b where b: "b < B" "img = t ! b" using assms(1) by (auto simp: in_set_conv_nth)
  then show "length img = H" using assms(2) by simp
  fix row assume "row \<in> set img"
  then obtain h where h: "h < H" "row = img ! h"
    using \<open>length img = H\<close> by (auto simp: in_set_conv_nth)
  then show "length row = W" using assms(3) b by simp
  fix px assume "px \<in> set row"
  then obtain w where w: "w < W" "px = row ! w"
    using \<open>length row = W\<close> by (auto simp: in_set_conv_nth)
  then show "length px = C" using assms(4) b h by simp
qed

lemma sum_list_map_nth: "sum_list (map f xs) = (\<Sum>i<length xs. f (xs ! i))"
proof -
  have "sum_list (map f xs) = (\<Sum>i = 0..<length (map f xs). map f xs ! i)"
    by (rule sum_list_sum_nth)
  also have "\<dots> = (\<Sum>i<length xs. f (xs ! i))"
    by (rule sum.cong) auto
  finally show ?thesis .
qed

lemma reduce_sum_index:
  assumes "has_shape t B H W C"
  shows "reduce_sum t = (\<Sum>b<B. \<Sum>h<H. \<Sum>w<W. \<Sum>c<C. t ! b ! h ! w ! c)"
proof -
  note s = has_shape_nthD [OF assms]
  have px: "sum_list (t ! b ! h ! w) = (\<Sum>c<C. t ! b ! h ! w ! c)"
    if "b < B" "h < H" "w < W" for b h w
    using sum_list_map_nth [of "\<lambda>x. x" "t ! b ! h ! w"] s(4) [OF that] by simp
  have row: "(\<Sum>px\<leftarrow>t ! b ! h. sum_list px) = (\<Sum>w<W. \<Sum>c<C. t ! b ! h ! w ! c)"
    if "b < B" "h < H" for b h
    using px [OF that] s(3) [OF that] by (simp add: sum_list_map_nth)
  have img: "(\<Sum>row\<leftarrow>t ! b. \<Sum>px\<leftarrow>row. sum_list px) = (\<Sum>h<H. \<Sum>w<W. \<Sum>c<C. t ! b ! h ! w ! c)"
    if "b < B" for b
    using row [OF that] s(2) [OF that] by (simp add: sum_list_map_nth)
  show ?thesis
    unfolding reduce_sum_def using img s(1) by (simp add: sum_list_map_nth)
qed

lemma bcast_same_nth:
  assumes len: "length xs = length ys"
    and each: "\<And>i. i < length xs \<Longrightarrow> \<exists>z. f (xs ! i) (ys ! i) = Some z \<and> P i z"
  shows "\<exists>zs. bcast f xs ys = Some zs \<and> length zs = length xs \<and> (\<forall>i<length xs. P i (zs ! i))"
proof -
  let ?zs = "map (\<lambda>(x, y). the (f x y)) (zip xs ys)"
  have "bcast f xs ys = Some ?zs"
  proof (rule bcast_same [OF len])
    fix x y assume "(x, y) \<in> set (zip xs ys)"
    then obtain i where "i < length xs" "x = xs ! i" "y = ys ! i"
      by (auto simp: in_set_zip)
    with each [of i] show "f x y = Some (the (f x y))" by auto
  qed
  moreover have "length ?zs = length xs" using len by simp
  moreover have "P i (?zs ! i)" if "i < length xs" for i
    using each [OF that] that len by auto
  ultimately show ?thesis by blast
qed

lemma tbinop_levels:
  assumes a: "has_shape a B H W Ca" and b: "has_shape b B H W Cb"
    and px: "\<And>i h w. i < B \<Longrightarrow> h < H \<Longrightarrow> w < W \<Longrightarrow>
      \<exists>z. bcast (\<lambda>x y. Some (f x y)) (a ! i ! h ! w) (b ! i ! h ! w) = Some z \<and> length z = C
        \<and> (\<forall>c<C. z ! c = g i h w c)"
  shows "\<exists>r. tbinop f a b = Some r \<and> has_shape r B H W C
    \<and> (\<forall>i<B. \<forall>h<H. \<forall>w<W. \<forall>c<C. r ! i ! h ! w ! c = g i h w c)"
proof -
  note sa = has_shape_nthD [OF a] and sb = has_shape_nthD [OF b]
  let ?f0 = "\<lambda>x y. Some (f x y)"
  have row: "\<exists>z. bcast (bcast ?f0) (a ! i ! h) (b ! i ! h) = Some z \<and> length z = W
      \<and> (\<forall>w<W. length (z ! w) = C \<and> (\<forall>c<C. z ! w ! c = g i h w c))"
    if "i < B" "h < H" for i h
    using bcast_same_nth [of "a ! i ! h" "b ! i ! h" "bcast ?f0"
        "\<lambda>w z. length z = C \<and> (\<forall>c<C. z ! c = g i h w c)"]
      sa(3) [OF that] sb(3) [OF that] px [OF that] by simp
  have img: "\<exists>z. bcast (bcast (bcast ?f0)) (a ! i) (b ! i) = Some z \<and> length z = H
      \<and> (\<forall>h<H. length (z ! h) = W \<and> (\<forall>w<W. length (z ! h ! w) = C
            \<and> (\<forall>c<C. z ! h ! w ! c = g i h w c)))"
    if "i < B" for i
    using bcast_same_nth [of "a ! i" "b ! i" "bcast (bcast ?f0)"
        "\<lambda>h z. length z = W \<and> (\<forall>w<W. length (z ! w) = C \<and> (\<forall>c<C. z ! w ! c = g i h w c))"]
      sa(2) [OF that] sb(2) [OF that] row [OF that] by simp
  have "\<exists>r. bcast (bcast (bcast (bcast ?f0))) a b = Some r \<and> length r = B
      \<and> (\<forall>i<B. length (r ! i) = H \<and> (\<forall>h<H. length (r ! i ! h) = W
            \<and> (\<forall>w<W. length (r ! i ! h ! w) = C \<and> (\<forall>c<C. r ! i ! h ! w ! c = g i h w c))))"
    using bcast_same_nth [of a b "bcast (bcast (bcast ?f0))"
        "\<lambda>i z. length z = H \<and> (\<forall>h<H. length (z ! h) = W \<and> (\<forall>w<W. length (z ! h ! w) = C
            \<and> (\<forall>c<C. z ! h ! w ! c = g i h w c)))"]
      sa(1) sb(1) img by simp
  then obtain r where r: "tbinop f a b = Some r" "length r = B"
    and rs: "\<And>i. i < B \<Longrightarrow> length (r ! i) = H \<and> (\<forall>h<H. length (r ! i ! h) = W
            \<and> (\<forall>w<W. length (r ! i ! h ! w) = C \<and> (\<forall>c<C. r ! i ! h ! w ! c = g i h w c)))"
    unfolding tbinop_def by blast
  have "has_shape r B H W C"
    by (rule has_shapeI) (use r(2) rs in auto)
  with r(1) rs show ?thesis by blast
qed

lemma tbinop_same_shape:
  assumes a: "has_shape a B H W C" and b: "has_shape b B H W C"
  shows "\<exists>r. tbinop f a b = Some r \<and> has_shape r B H W C
    \<and> (\<forall>i<B. \<forall>h<H. \<forall>w<W. \<forall>c<C. r ! i ! h ! w ! c = f (a ! i ! h ! w ! c) (b ! i ! h ! w ! c))"
proof (rule tbinop_levels [OF a b])
  fix i h w assume "i < B" "h < H" "w < W"
  then show "\<exists>z. bcast (\<lambda>x y. Some (f x y)) (a ! i ! h ! w) (b ! i ! h ! w) = Some z
      \<and> length z = C \<and> (\<forall>c<C. z ! c = f (a ! i ! h ! w ! c) (b ! i ! h ! w ! c))"
    using bcast_same_nth [of "a ! i ! h ! w" "b ! i ! h ! w" "\<lambda>x y. Some (f x y)"
        "\<lambda>c z. z = f (a ! i ! h ! w ! c) (b ! i ! h ! w ! c)"]
      has_shape_nthD(4) [OF a] has_shape_nthD(4) [OF b] by simp
qed

lemma tbinop_mask:
  assumes m: "has_shape m B H W 1" and a: "has_shape a B H W C"
  shows "\<exists>r. tbinop f m a = Some r \<and> has_shape r B H W C
    \<and> (\<forall>i<B. \<forall>h<H. \<forall>w<W. \<forall>c<C. r ! i ! h ! w ! c = f (m ! i ! h ! w ! 0) (a ! i ! h ! w ! c))"
proof (rule tbinop_levels [OF m a])
  fix i h w assume in_range: "i < B" "h < H" "w < W"
  from has_shape_nthD(4) [OF m in_range] obtain x where x: "m ! i ! h ! w = [x]"
    by (cases "m ! i ! h ! w") auto
  have "bcast (\<lambda>x y. Some (f x y)) [x] (a ! i ! h ! w) = Some (map (f x) (a ! i ! h ! w))"
    by (rule bcast_left1) simp
  with x has_shape_nthD(4) [OF a in_range]
  show "\<exists>z. bcast (\<lambda>x y. Some (f x y)) (m ! i ! h ! w) (a ! i ! h ! w) = Some z
      \<and> length z = C \<and> (\<forall>c<C. z ! c = f (m ! i ! h ! w ! 0) (a ! i ! h ! w ! c))"
    by simp
qed

lemma tmap_nth:
  "has_shape t B H W C \<Longrightarrow> i < B \<Longrightarrow> h < H \<Longrightarrow> w < W \<Longrightarrow> c < C
     \<Longrightarrow> tmap f t ! i ! h ! w ! c = f (t ! i ! h ! w ! c)"
  using has_shape_nthD [of t B H W C] by (simp add: tmap_def)

lemma canonical_extents:
  assumes "has_shape t B H W C"
  shows "has_shape t (length t) (rows t) (cols t) (chans t)"
proof (rule has_shapeI)
  note s = has_shape_nthD [OF assms]
  show "length t = length t" by simp
  show "length (t ! b) = rows t" if "b < length t" for b
    using that s(1) s(2) [of b] s(2) [of 0] by (cases t) (auto simp: rows_def)
  show "length (t ! b ! h) = cols t" if "b < length t" "h < rows t" for b h
  proof -
    from that s(1) have b: "b < B" "0 < B" by auto
    from that(2) b(2) s(2) [of 0] have H: "rows t = H" "0 < H"
      by (cases t; auto simp: rows_def)+
    with that(2) have h: "h < H" by simp
    from b(2) H(2) s(1) s(2) [of 0] s(3) [of 0 0] have "cols t = W"
      by (cases t; cases "hd t"; auto simp: cols_def)
    with s(3) [OF b(1) h] show ?thesis by simp
  qed
  show "length (t ! b ! h ! w) = chans t" if "b < length t" "h < rows t" "w < cols t" for b h w
  proof -
    from that s(1) have b: "b < B" "0 < B" by auto
    from that(2) b(2) s(2) [of 0] have H: "rows t = H" "0 < H"
      by (cases t; auto simp: rows_def)+
    with that(2) have h: "h < H" by simp
    from b(2) H(2) s(1) s(2) [of 0] s(3) [of 0 0] have Wd: "cols t = W"
      by (cases t; cases "hd t"; auto simp: cols_def)
    with that(3) have w: "w < W" "0 < W" by auto
    from b(2) H(2) w(2) s(1) s(2) [of 0] s(3) [of 0 0] s(4) [of 0 0 0] have "chans t = C"
      by (cases t; cases "hd t"; cases "hd (hd t)"; auto simp: chans_def)
    with s(4) [OF b(1) h w(1)] show ?thesis by simp
  qed
qed

lemma layer_loss_score:
  assumes "aligned resize_images image_bw act_fake act_real"
  shows "layer_loss resize_images image_bw weight act_fake act_real
    = Some (layer_score weight (resize_images image_bw (rows act_fake, cols act_fake))
        act_fake act_real)"
proof -
  let ?B = "length act_fake" and ?H = "rows act_fake" and ?W = "cols act_fake"
    and ?C = "chans act_fake"
  let ?m = "resize_images image_bw (?H, ?W)"
  from assms have fake: "has_shape act_fake ?B ?H ?W ?C" and real: "has_shape act_real ?B ?H ?W ?C"
    and m: "has_shape ?m ?B ?H ?W 1"
    by (simp_all add: aligned_def)
  from tbinop_same_shape [OF fake real, of "(-)"]
  obtain diff where diff: "tbinop (-) act_fake act_real = Some diff"
    and dshape: "has_shape diff ?B ?H ?W ?C"
    and dnth: "\<And>i h w c. i < ?B \<Longrightarrow> h < ?H \<Longrightarrow> w < ?W \<Longrightarrow> c < ?C \<Longrightarrow>
      diff ! i ! h ! w ! c = act_fake ! i ! h ! w ! c - act_real ! i ! h ! w ! c"
    by blast
  have wm: "has_shape (tmap (\<lambda>x. weight * x) ?m) ?B ?H ?W 1"
    using m by (simp add: has_shape_tmap)
  have ad: "has_shape (tmap abs diff) ?B ?H ?W ?C"
    using dshape by (simp add: has_shape_tmap)
  from tbinop_mask [OF wm ad, of "(*)"]
  obtain r where r: "tbinop (*) (tmap (\<lambda>x. weight * x) ?m) (tmap abs diff) = Some r"
    and rshape: "has_shape r ?B ?H ?W ?C"
    and rnth: "\<And>i h w c. i < ?B \<Longrightarrow> h < ?H \<Longrightarrow> w < ?W \<Longrightarrow> c < ?C \<Longrightarrow>
      r ! i ! h ! w ! c
        = tmap (\<lambda>x. weight * x) ?m ! i ! h ! w ! 0 * tmap abs diff ! i ! h ! w ! c"
    by blast
  have elem: "r ! i ! h ! w ! c
      = weight * (?m ! i ! h ! w ! 0) * \<bar>act_fake ! i ! h ! w ! c - act_real ! i ! h ! w ! c\<bar>"
    if "i < ?B" "h < ?H" "w < ?W" "c < ?C" for i h w c
    using rnth [OF that] tmap_nth [OF m that(1,2,3), of 0 "\<lambda>x. weight * x"]
      tmap_nth [OF dshape that, of abs] dnth [OF that] by simp
  have "reduce_sum r = layer_score weight ?m act_fake act_real"
    unfolding reduce_sum_index [OF rshape] layer_score_def
    by (intro sum.cong refl) (simp add: elem)
  with diff r show ?thesis by (simp add: layer_loss_def)
qed

lemma tbinop_bias_pixels:
  assumes pixels: "\<And>img row px. img \<in> set t \<Longrightarrow> row \<in> set img \<Longrightarrow> px \<in> set row \<Longrightarrow> length px = length v"
  shows "tbinop f t [[[v]]] =
    Some (map (map (map (\<lambda>px. map (\<lambda>(x, m). f x m) (zip px v)))) t)"
proof -
  have px: "bcast (\<lambda>a b. Some (f a b)) px v = Some (map (\<lambda>(x, m). f x m) (zip px v))"
    if "length px = length v" for px
    by (rule bcast_same) (use that in auto)
  have row: "bcast (bcast (\<lambda>a b. Some (f a b))) row [v]
      = Some (map (\<lambda>px. map (\<lambda>(x, m). f x m) (zip px v)) row)"
    if "\<forall>px \<in> set row. length px = length v" for row
    by (rule bcast_right1) (use that px in auto)
  have im: "bcast (bcast (bcast (\<lambda>a b. Some (f a b)))) im [[v]]
      = Some (map (map (\<lambda>px. map (\<lambda>(x, m). f x m) (zip px v))) im)"
    if "\<forall>row \<in> set im. \<forall>px \<in> set row. length px = length v" for im
    by (rule bcast_right1) (use that row in auto)
  show ?thesis
    unfolding tbinop_def
    by (rule bcast_right1) (use pixels im in auto)
qed

lemma vgg_19_evaluate_rgb:
  assumes "rgb img"
  shows "vgg_19_evaluate vgg_19 img = Some (vgg_19 img)"
proof -
  have "image_normalized img \<noteq> None"
    unfolding image_normalized_def
    by (subst tbinop_bias_pixels) (use assms in \<open>auto simp: rgb_def tmap_def vgg_mean_def\<close>)
  then show ?thesis by (auto simp: vgg_19_evaluate_def)
qed

lemma layer_loss_term:
  assumes ready: "candidate_ready vgg_19 resize_images image_bw image_rgb_real image_rgb_fake"
    and layer: "layer \<in> set layers"
  shows "(case activations layer image_rgb_fake image_rgb_real
            (vgg_19 image_rgb_fake) (vgg_19 image_rgb_real) of
          None \<Rightarrow> None
        | Some (act_fake, act_real) \<Rightarrow>
            layer_loss resize_images image_bw weight act_fake act_real)
    = Some (layer_term vgg_19 resize_images image_bw image_rgb_real image_rgb_fake weight layer)"
proof -
  from ready layer obtain act_fake act_real
    where acts: "activations layer image_rgb_fake image_rgb_real
        (vgg_19 image_rgb_fake) (vgg_19 image_rgb_real) = Some (act_fake, act_real)"
      and al: "aligned resize_images image_bw act_fake act_real"
    by (auto simp: candidate_ready_def split: option.splits)
  from layer_loss_score [OF al, of weight] acts show ?thesis
    by (simp add: layer_term_def)
qed

lemma losses_collection_terms:
  assumes ready: "candidate_ready vgg_19 resize_images image_bw image_rgb_real image_rgb_fake"
  shows "losses_collection weights vgg_19 resize_images image_bw image_rgb_real
      (vgg_19 image_rgb_real) image_rgb_fake
    = Some (map (\<lambda>(weight, layer).
        layer_term vgg_19 resize_images image_bw image_rgb_real image_rgb_fake weight layer)
        (zip weights layers))"
proof -
  from ready have "rgb image_rgb_fake" by (simp add: candidate_ready_def)
  then have ev: "vgg_19_evaluate vgg_19 image_rgb_fake = Some (vgg_19 image_rgb_fake)"
    by (rule vgg_19_evaluate_rgb)
  have "those_ok (map (\<lambda>(weight, layer).
            case activations layer image_rgb_fake image_rgb_real
                   (vgg_19 image_rgb_fake) (vgg_19 image_rgb_real) of
              None \<Rightarrow> None
            | Some (act_fake, act_real) \<Rightarrow>
                layer_loss resize_images image_bw weight act_fake act_real)
          (zip weights layers))
    = Some (map (\<lambda>(weight, layer).
        layer_term vgg_19 resize_images image_bw image_rgb_real image_rgb_fake weight layer)
        (zip weights layers))"
  proof (rule those_ok_map)
    fix x assume x: "x \<in> set (zip weights layers)"
    obtain weight layer where eq: "x = (weight, layer)" by (cases x) auto
    with x have "layer \<in> set layers" by (auto dest: set_zip_rightD)
    from layer_loss_term [OF ready this, of weight] eq
    show "(case x of (weight, layer) \<Rightarrow>
            case activations layer image_rgb_fake image_rgb_real
                   (vgg_19 image_rgb_fake) (vgg_19 image_rgb_real) of
              None \<Rightarrow> None
            | Some (act_fake, act_real) \<Rightarrow>
                layer_loss resize_images image_bw weight act_fake act_real)
      = Some (case x of (weight, layer) \<Rightarrow>
          layer_term vgg_19 resize_images image_bw image_rgb_real image_rgb_fake weight layer)"
      by simp
  qed
  with ev show ?thesis by (simp add: losses_collection_def)
qed

lemma loss_collection_score:
  assumes "candidate_ready vgg_19 resize_images image_bw image_rgb_real image_rgb_fake"
  shows "loss_collection weights vgg_19 resize_images image_bw image_rgb_real
      (vgg_19 image_rgb_real) image_rgb_fake
    = Some (candidate_score weights vgg_19 resize_images image_bw image_rgb_real image_rgb_fake)"
  by (simp add: loss_collection_def losses_collection_terms [OF assms] candidate_score_def)

lemma ex_ready:
  "candidate_ready (\<lambda>img layer. Some (map (map (map (\<lambda>px. px @ px))) img)) (\<lambda>m shp. m)
     [[[[0.5]]]] [[[[0, 0, 0]]]] [[[[1, 2, 3]]]]"
  by (simp add: candidate_ready_def rgb_def layers_def activations_def aligned_def has_shape_def
      rows_def cols_def chans_def)

lemma ex_term:
  "layer_term (\<lambda>img layer. Some (map (map (map (\<lambda>px. px @ px))) img)) (\<lambda>m shp. m)
     [[[[0.5]]]] [[[[0, 0, 0]]]] [[[[1, 2, 3]]]] weight layer
   = (if layer = ''input'' then 3 * weight else 6 * weight)"
  by (simp add: layer_term_def activations_def layer_score_def rows_def cols_def chans_def
      lessThan_Suc eval_nat_numeral)

text \<open>
  C2. For a candidate whose activations are aligned with those of the ground truth at
  every layer, the loss that \<open>layer_loss\<close> computes for each of the 6 weighted layers
  (the raw pixels and 5 feature layers) is the sum over all elements (batch, rows,
  columns, channels) of the weight of the layer times the mask resampled to the extents
  of the layer times the absolute difference of the activations, and the loss of the
  candidate is the sum of these 6 numbers.
\<close>

theorem candidate_loss_sums_layer_scores:
  assumes ready: "candidate_ready vgg_19 resize_images image_bw image_rgb_real image_rgb_fake"
  shows "(\<forall>weight layer act_fake act_real.
        (weight, layer) \<in> set (zip lambda_weights layers) \<longrightarrow>
        activations layer image_rgb_fake image_rgb_real
          (vgg_19 image_rgb_fake) (vgg_19 image_rgb_real) = Some (act_fake, act_real) \<longrightarrow>
        layer_loss resize_images image_bw weight act_fake act_real
          = Some (layer_score weight (resize_images image_bw (rows act_fake, cols act_fake))
              act_fake act_real))
    \<and> loss_collection lambda_weights vgg_19 resize_images image_bw image_rgb_real
        (vgg_19 image_rgb_real) image_rgb_fake
      = Some (layer_term vgg_19 resize_images image_bw image_rgb_real image_rgb_fake
                0.88 ''input''
            + layer_term vgg_19 resize_images image_bw image_rgb_real image_rgb_fake
                0.79 ''vgg_19/conv1/conv1_2''
            + layer_term vgg_19 resize_images image_bw image_rgb_real image_rgb_fake
                0.63 ''vgg_19/conv2/conv2_2''
            + layer_term vgg_19 resize_images image_bw image_rgb_real image_rgb_fake
                0.51 ''vgg_19/conv3/conv3_2''
            + layer_term vgg_19 resize_images image_bw image_rgb_real image_rgb_fake
                0.39 ''vgg_19/conv4/conv4_2''
            + layer_term vgg_19 resize_images image_bw image_rgb_real image_rgb_fake
                1.07 ''vgg_19/conv5/conv5_2'')"
proof (intro conjI allI impI)
  fix weight layer act_fake act_real
  assume "(weight, layer) \<in> set (zip lambda_weights layers)"
    and acts: "activations layer image_rgb_fake image_rgb_real
          (vgg_19 image_rgb_fake) (vgg_19 image_rgb_real) = Some (act_fake, act_real)"
  then have "layer \<in> set layers" by (auto dest: set_zip_rightD)
  with ready acts have "aligned resize_images image_bw act_fake act_real"
    by (auto simp: candidate_ready_def)
  then show "layer_loss resize_images image_bw weight act_fake act_real
          = Some (layer_score weight (resize_images image_bw (rows act_fake, cols act_fake))
              act_fake act_real)"
    by (rule layer_loss_score)
next
  show "loss_collection lambda_weights vgg_19 resize_images image_bw image_rgb_real
        (vgg_19 image_rgb_real) image_rgb_fake
      = Some (layer_term vgg_19 resize_images image_bw image_rgb_real image_rgb_fake
                0.88 ''input''
            + layer_term vgg_19 resize_images image_bw image_rgb_real image_rgb_fake
                0.79 ''vgg_19/conv1/conv1_2''
            + layer_term vgg_19 resize_images image_bw image_rgb_real image_rgb_fake
                0.63 ''vgg_19/conv2/conv2_2''
            + layer_term vgg_19 resize_images image_bw image_rgb_real image_rgb_fake
                0.51 ''vgg_19/conv3/conv3_2''
            + layer_term vgg_19 resize_images image_bw image_rgb_real image_rgb_fake
                0.39 ''vgg_19/conv4/conv4_2''
            + layer_term vgg_19 resize_images image_bw image_rgb_real image_rgb_fake
                1.07 ''vgg_19/conv5/conv5_2'')"
    unfolding loss_collection_score [OF ready]
    by (simp add: candidate_score_def lambda_weights_def layers_def)
qed

theorem candidate_loss_sums_layer_scores_witness:
  "candidate_ready (\<lambda>img layer. Some (map (map (map (\<lambda>px. px @ px))) img)) (\<lambda>m shp. m)
     [[[[0.5]]]] [[[[0, 0, 0]]]] [[[[1, 2, 3]]]]
   \<and> loss_collection lambda_weights (\<lambda>img layer. Some (map (map (map (\<lambda>px. px @ px))) img)) (\<lambda>m shp. m)
       [[[[0.5]]]] [[[[0, 0, 0]]]] ((\<lambda>img layer. Some (map (map (map (\<lambda>px. px @ px))) img)) [[[[0, 0, 0]]]]) [[[[1, 2, 3]]]]
     = Some 22.98"
proof -
  from candidate_loss_sums_layer_scores [OF ex_ready]
  have "loss_collection lambda_weights (\<lambda>img layer. Some (map (map (map (\<lambda>px. px @ px))) img)) (\<lambda>m shp. m)
       [[[[0.5]]]] [[[[0, 0, 0]]]] ((\<lambda>img layer. Some (map (map (map (\<lambda>px. px @ px))) img)) [[[[0, 0, 0]]]]) [[[[1, 2, 3]]]]
     = Some 22.98"
    unfolding ex_term by simp
  with ex_ready show ?thesis by (intro conjI)
qed

section \<open>Sign and monotonicity of the loss\<close>

lemma layer_score_scale:
  "layer_score weight m act_fake act_real = weight * layer_score 1 m act_fake act_real"
  by (simp add: layer_score_def sum_distrib_left mult.assoc)

lemma nonneg_nth:
  assumes "nonneg t" and "has_shape t B H W C" and "i < B" "h < H" "w < W" "c < C"
  shows "0 \<le> t ! i ! h ! w ! c"
proof -
  note s = has_shape_nthD [OF assms(2)]
  have "t ! i \<in> set t" using s(1) assms(3) by simp
  moreover have "t ! i ! h \<in> set (t ! i)" using s(2) assms(3,4) by simp
  moreover have "t ! i ! h ! w \<in> set (t ! i ! h)" using s(3) assms(3,4,5) by simp
  moreover have "t ! i ! h ! w ! c \<in> set (t ! i ! h ! w)" using s(4) assms(3-6) by simp
  ultimately show ?thesis using assms(1) unfolding nonneg_def by blast
qed

lemma layer_score_nonneg:
  assumes al: "aligned resize_images image_bw act_fake act_real"
    and m: "nonneg (resize_images image_bw (rows act_fake, cols act_fake))"
  shows "0 \<le> layer_score 1 (resize_images image_bw (rows act_fake, cols act_fake))
      act_fake act_real"
proof -
  from al have ms: "has_shape (resize_images image_bw (rows act_fake, cols act_fake))
      (length act_fake) (rows act_fake) (cols act_fake) 1"
    by (simp add: aligned_def)
  show ?thesis
    unfolding layer_score_def
    by (intro sum_nonneg mult_nonneg_nonneg) (auto intro: nonneg_nth [OF m ms])
qed

lemma sum_lessThan_zero_iff:
  fixes f :: "nat \<Rightarrow> real"
  shows "(\<And>i. i < n \<Longrightarrow> 0 \<le> f i) \<Longrightarrow> (\<Sum>i<n. f i) = 0 \<longleftrightarrow> (\<forall>i<n. f i = 0)"
  by (subst sum_nonneg_eq_0_iff) auto

lemma layer_score_zero_iff:
  assumes al: "aligned resize_images image_bw act_fake act_real"
    and m: "nonneg (resize_images image_bw (rows act_fake, cols act_fake))"
  shows "layer_score 1 (resize_images image_bw (rows act_fake, cols act_fake))
      act_fake act_real = 0
    \<longleftrightarrow> matches_under_mask (resize_images image_bw (rows act_fake, cols act_fake))
      act_fake act_real"
proof -
  let ?m = "resize_images image_bw (rows act_fake, cols act_fake)"
  let ?t = "\<lambda>b h w c. ?m ! b ! h ! w ! 0 *
        \<bar>act_fake ! b ! h ! w ! c - act_real ! b ! h ! w ! c\<bar>"
  from al have ms: "has_shape ?m (length act_fake) (rows act_fake) (cols act_fake) 1"
    by (simp add: aligned_def)
  have t0: "0 \<le> ?t b h w c"
    if "b < length act_fake" "h < rows act_fake" "w < cols act_fake" for b h w c
    using nonneg_nth [OF m ms that, of 0] by simp
  have s1: "0 \<le> (\<Sum>c<chans act_fake. ?t b h w c)"
    if "b < length act_fake" "h < rows act_fake" "w < cols act_fake" for b h w
    by (intro sum_nonneg t0 that)
  have s2: "0 \<le> (\<Sum>w<cols act_fake. \<Sum>c<chans act_fake. ?t b h w c)"
    if "b < length act_fake" "h < rows act_fake" for b h
    by (intro sum_nonneg s1 that) simp
  have s3: "0 \<le> (\<Sum>h<rows act_fake. \<Sum>w<cols act_fake. \<Sum>c<chans act_fake. ?t b h w c)"
    if "b < length act_fake" for b
    by (intro sum_nonneg s2 that) simp
  have e1: "(\<Sum>c<chans act_fake. ?t b h w c) = 0 \<longleftrightarrow> (\<forall>c<chans act_fake. ?t b h w c = 0)"
    if "b < length act_fake" "h < rows act_fake" "w < cols act_fake" for b h w
    by (rule sum_lessThan_zero_iff) (rule t0 [OF that])
  have e2: "(\<Sum>w<cols act_fake. \<Sum>c<chans act_fake. ?t b h w c) = 0
      \<longleftrightarrow> (\<forall>w<cols act_fake. (\<Sum>c<chans act_fake. ?t b h w c) = 0)"
    if "b < length act_fake" "h < rows act_fake" for b h
    by (rule sum_lessThan_zero_iff) (rule s1 [OF that])
  have e3: "(\<Sum>h<rows act_fake. \<Sum>w<cols act_fake. \<Sum>c<chans act_fake. ?t b h w c) = 0
      \<longleftrightarrow> (\<forall>h<rows act_fake. (\<Sum>w<cols act_fake. \<Sum>c<chans act_fake. ?t b h w c) = 0)"
    if "b < length act_fake" for b
    by (rule sum_lessThan_zero_iff) (rule s2 [OF that])
  have e4: "(\<Sum>b<length act_fake. \<Sum>h<rows act_fake. \<Sum>w<cols act_fake.
        \<Sum>c<chans act_fake. ?t b h w c) = 0
      \<longleftrightarrow> (\<forall>b<length act_fake. (\<Sum>h<rows act_fake. \<Sum>w<cols act_fake.
            \<Sum>c<chans act_fake. ?t b h w c) = 0)"
    by (rule sum_lessThan_zero_iff) (rule s3)
  have "layer_score 1 ?m act_fake act_real = 0
    \<longleftrightarrow> (\<forall>b<length act_fake. \<forall>h<rows act_fake. \<forall>w<cols act_fake.
          \<forall>c<chans act_fake. ?t b h w c = 0)"
    unfolding layer_score_def mult_1 e4 using e3 e2 e1 by (simp del: mult_eq_0_iff)
  also have "\<dots> \<longleftrightarrow> matches_under_mask ?m act_fake act_real"
    by (simp add: matches_under_mask_def)
  finally show ?thesis .
qed

lemma layer_term_scale:
  "layer_term vgg_19 resize_images image_bw image_rgb_real image_rgb_fake weight layer
   = weight * layer_term vgg_19 resize_images image_bw image_rgb_real image_rgb_fake 1 layer"
proof (cases "activations layer image_rgb_fake image_rgb_real
      (vgg_19 image_rgb_fake) (vgg_19 image_rgb_real)")
  case None
  then show ?thesis by (simp add: layer_term_def)
next
  case (Some acts)
  obtain act_fake act_real where "acts = (act_fake, act_real)" by (cases acts) auto
  with Some show ?thesis
    using layer_score_scale [of weight "resize_images image_bw (rows act_fake, cols act_fake)"
        act_fake act_real]
    by (simp add: layer_term_def)
qed

lemma layer_term_unit:
  assumes ready: "candidate_ready vgg_19 resize_images image_bw image_rgb_real image_rgb_fake"
    and masks: "\<And>shp. nonneg (resize_images image_bw shp)"
    and layer: "layer \<in> set layers"
  shows "0 \<le> layer_term vgg_19 resize_images image_bw image_rgb_real image_rgb_fake 1 layer"
    and "layer_term vgg_19 resize_images image_bw image_rgb_real image_rgb_fake 1 layer = 0
      \<longleftrightarrow> layer_matches vgg_19 resize_images image_bw image_rgb_real image_rgb_fake layer"
proof -
  from ready layer obtain act_fake act_real
    where acts: "activations layer image_rgb_fake image_rgb_real
        (vgg_19 image_rgb_fake) (vgg_19 image_rgb_real) = Some (act_fake, act_real)"
      and al: "aligned resize_images image_bw act_fake act_real"
    by (auto simp: candidate_ready_def split: option.splits)
  from layer_score_nonneg [OF al masks] acts
  show "0 \<le> layer_term vgg_19 resize_images image_bw image_rgb_real image_rgb_fake 1 layer"
    by (simp add: layer_term_def)
  from layer_score_zero_iff [OF al masks] acts
  show "layer_term vgg_19 resize_images image_bw image_rgb_real image_rgb_fake 1 layer = 0
      \<longleftrightarrow> layer_matches vgg_19 resize_images image_bw image_rgb_real image_rgb_fake layer"
    by (simp add: layer_term_def layer_matches_def)
qed

lemma candidate_score_weighted:
  "candidate_score weights vgg_19 resize_images image_bw image_rgb_real image_rgb_fake
   = (\<Sum>(weight, layer)\<leftarrow>zip weights layers.
        weight * layer_term vgg_19 resize_images image_bw image_rgb_real image_rgb_fake 1 layer)"
  unfolding candidate_score_def
  by (intro arg_cong [where f = sum_list] map_cong refl) (auto intro: layer_term_scale)

lemma weighted_sum_mono:
  fixes g :: "'a \<Rightarrow> real"
  assumes "list_all2 (\<le>) ws ws'" and "\<And>l. l \<in> set ls \<Longrightarrow> 0 \<le> g l"
  shows "(\<Sum>(w, l)\<leftarrow>zip ws ls. w * g l) \<le> (\<Sum>(w, l)\<leftarrow>zip ws' ls. w * g l)"
  using assms
proof (induction ws ws' arbitrary: ls rule: list_all2_induct)
  case Nil
  show ?case by simp
next
  case (Cons w ws w' ws')
  show ?case
  proof (cases ls)
    case Nil
    then show ?thesis by simp
  next
    case (Cons l rest)
    with Cons.prems have "0 \<le> g l" and rest: "\<And>l. l \<in> set rest \<Longrightarrow> 0 \<le> g l" by auto
    with \<open>w \<le> w'\<close> have "w * g l \<le> w' * g l" by (simp add: mult_right_mono)
    moreover from Cons.IH [of rest] rest
    have "(\<Sum>(w, l)\<leftarrow>zip ws rest. w * g l) \<le> (\<Sum>(w, l)\<leftarrow>zip ws' rest. w * g l)" by simp
    ultimately show ?thesis using Cons by simp
  qed
qed

lemma candidate_score_mono:
  assumes ready: "candidate_ready vgg_19 resize_images image_bw image_rgb_real image_rgb_fake"
    and masks: "\<And>shp. nonneg (resize_images image_bw shp)"
    and le: "list_all2 (\<le>) weights weights'"
  shows "candidate_score weights vgg_19 resize_images image_bw image_rgb_real image_rgb_fake
    \<le> candidate_score weights' vgg_19 resize_images image_bw image_rgb_real image_rgb_fake"
  unfolding candidate_score_weighted
  by (rule weighted_sum_mono [OF le]) (rule layer_term_unit(1) [OF ready masks])

lemma six_terms_zero:
  fixes a b c d e f :: real
  assumes "0 \<le> a" "0 \<le> b" "0 \<le> c" "0 \<le> d" "0 \<le> e" "0 \<le> f"
    and "0.88 * a + 0.79 * b + 0.63 * c + 0.51 * d + 0.39 * e + 1.07 * f = 0"
  shows "a = 0 \<and> b = 0 \<and> c = 0 \<and> d = 0 \<and> e = 0 \<and> f = 0"
  using assms by (simp add: field_simps)

lemma candidate_score_zero_iff:
  assumes ready: "candidate_ready vgg_19 resize_images image_bw image_rgb_real image_rgb_fake"
    and masks: "\<And>shp. nonneg (resize_images image_bw shp)"
  shows "0 \<le> candidate_score lambda_weights vgg_19 resize_images image_bw image_rgb_real
      image_rgb_fake"
    and "candidate_score lambda_weights vgg_19 resize_images image_bw image_rgb_real
        image_rgb_fake = 0
      \<longleftrightarrow> (\<forall>layer \<in> set layers.
            layer_matches vgg_19 resize_images image_bw image_rgb_real image_rgb_fake layer)"
proof -
  let ?T = "layer_term vgg_19 resize_images image_bw image_rgb_real image_rgb_fake 1"
  note unit = layer_term_unit [OF ready masks]
  have score: "candidate_score lambda_weights vgg_19 resize_images image_bw image_rgb_real
      image_rgb_fake
    = 0.88 * ?T ''input'' + 0.79 * ?T ''vgg_19/conv1/conv1_2''
      + 0.63 * ?T ''vgg_19/conv2/conv2_2'' + 0.51 * ?T ''vgg_19/conv3/conv3_2''
      + 0.39 * ?T ''vgg_19/conv4/conv4_2'' + 1.07 * ?T ''vgg_19/conv5/conv5_2''"
    unfolding candidate_score_weighted by (simp add: lambda_weights_def layers_def)
  have pos: "0 \<le> ?T ''input''" "0 \<le> ?T ''vgg_19/conv1/conv1_2''"
    "0 \<le> ?T ''vgg_19/conv2/conv2_2''" "0 \<le> ?T ''vgg_19/conv3/conv3_2''"
    "0 \<le> ?T ''vgg_19/conv4/conv4_2''" "0 \<le> ?T ''vgg_19/conv5/conv5_2''"
    by (rule unit(1), simp add: layers_def)+
  show "0 \<le> candidate_score lambda_weights vgg_19 resize_images image_bw image_rgb_real
      image_rgb_fake"
    unfolding score using pos by simp
  have "candidate_score lambda_weights vgg_19 resize_images image_bw image_rgb_real
        image_rgb_fake = 0
    \<longleftrightarrow> ?T ''input'' = 0 \<and> ?T ''vgg_19/conv1/conv1_2'' = 0
      \<and> ?T ''vgg_19/conv2/conv2_2'' = 0 \<and> ?T ''vgg_19/conv3/conv3_2'' = 0
      \<and> ?T ''vgg_19/conv4/conv4_2'' = 0 \<and> ?T ''vgg_19/conv5/conv5_2'' = 0"
  proof
    assume "candidate_score lambda_weights vgg_19 resize_images image_bw image_rgb_real
        image_rgb_fake = 0"
    with pos show "?T ''input'' = 0 \<and> ?T ''vgg_19/conv1/conv1_2'' = 0
      \<and> ?T ''vgg_19/conv2/conv2_2'' = 0 \<and> ?T ''vgg_19/conv3/conv3_2'' = 0
      \<and> ?T ''vgg_19/conv4/conv4_2'' = 0 \<and> ?T ''vgg_19/conv5/conv5_2'' = 0"
      unfolding score by (intro six_terms_zero)
  next
    assume "?T ''input'' = 0 \<and> ?T ''vgg_19/conv1/conv1_2'' = 0
      \<and> ?T ''vgg_19/conv2/conv2_2'' = 0 \<and> ?T ''vgg_19/conv3/conv3_2'' = 0
      \<and> ?T ''vgg_19/conv4/conv4_2'' = 0 \<and> ?T ''vgg_19/conv5/conv5_2'' = 0"
    then show "candidate_score lambda_weights vgg_19 resize_images image_bw image_rgb_real
        image_rgb_fake = 0"
      unfolding score by simp
  qed
  also have "\<dots> \<longleftrightarrow> (\<forall>layer \<in> set layers. ?T layer = 0)"
    by (simp add: layers_def)
  also have "\<dots> \<longleftrightarrow> (\<forall>layer \<in> set layers.
            layer_matches vgg_19 resize_images image_bw image_rgb_real image_rgb_fake layer)"
    using unit(2) by blast
  finally show "candidate_score lambda_weights vgg_19 resize_images image_bw image_rgb_real
        image_rgb_fake = 0
      \<longleftrightarrow> (\<forall>layer \<in> set layers.
            layer_matches vgg_19 resize_images image_bw image_rgb_real image_rgb_fake layer)" .
qed

lemma blend_terms_zero:
  fixes a b :: real
  assumes "0 \<le> a" "0 \<le> b" "0.999 * a + 0.001 * b = 0"
  shows "b = 0"
proof -
  from assms(1) have "0 \<le> 0.999 * a" by simp
  with assms(3) have "0.001 * b \<le> 0" by linarith
  then have "b \<le> 0" by simp
  with assms(2) show ?thesis by simp
qed

lemma blend_nonneg:
  assumes ne: "losses \<noteq> []" and pos: "\<And>x. x \<in> set losses \<Longrightarrow> 0 \<le> x"
  shows "\<exists>loss. blend losses = Some loss \<and> 0 \<le> loss
    \<and> (loss = 0 \<longleftrightarrow> (\<forall>x \<in> set losses. x = 0))"
proof -
  let ?mn = "Min (set losses)" and ?mean = "sum_list losses / real (length losses)"
  have mem: "?mn \<in> set losses" using ne by (intro Min_in) auto
  then have mn: "0 \<le> ?mn" by (rule pos)
  have sm: "0 \<le> sum_list losses" using pos by (rule sum_list_nonneg)
  have len: "0 < real (length losses)" using ne by simp
  have mean: "0 \<le> ?mean" using sm len by simp
  have zero: "0.999 * ?mn + 0.001 * ?mean = 0 \<longleftrightarrow> (\<forall>x \<in> set losses. x = 0)"
  proof
    assume "0.999 * ?mn + 0.001 * ?mean = 0"
    with mn mean have "?mean = 0" by (rule blend_terms_zero)
    with len have "sum_list losses = 0" by simp
    then show "\<forall>x \<in> set losses. x = 0"
      using pos by (simp add: sum_list_nonneg_eq_0_iff)
  next
    assume all: "\<forall>x \<in> set losses. x = 0"
    with mem have "?mn = 0" by blast
    moreover from all have "sum_list losses = 0"
      using pos by (simp add: sum_list_nonneg_eq_0_iff)
    ultimately show "0.999 * ?mn + 0.001 * ?mean = 0" by simp
  qed
  from mn mean have "0 \<le> 0.999 * ?mn + 0.001 * ?mean" by simp
  with blend_formula [OF ne] zero show ?thesis by simp
qed

lemma blend_mono:
  assumes ne: "cs \<noteq> []" and le: "\<And>c. c \<in> set cs \<Longrightarrow> f c \<le> g c"
  shows "\<exists>loss loss'. blend (map f cs) = Some loss \<and> blend (map g cs) = Some loss'
    \<and> loss \<le> loss'"
proof -
  have nf: "map f cs \<noteq> []" and ng: "map g cs \<noteq> []" using ne by simp_all
  have "Min (set (map f cs)) \<le> y" if "y \<in> set (map g cs)" for y
  proof -
    from that obtain c where c: "c \<in> set cs" "y = g c" by auto
    then have "Min (set (map f cs)) \<le> f c" by (intro Min_le) auto
    with le [OF c(1)] c(2) show ?thesis by simp
  qed
  then have mn: "Min (set (map f cs)) \<le> Min (set (map g cs))"
    using ng by (intro Min.boundedI) auto
  have sm: "sum_list (map f cs) \<le> sum_list (map g cs)"
    by (rule sum_list_mono) (rule le)
  have "sum_list (map f cs) / real (length cs) \<le> sum_list (map g cs) / real (length cs)"
    using sm by (simp add: divide_right_mono)
  with mn have "0.999 * Min (set (map f cs)) + 0.001 * (sum_list (map f cs) / real (length cs))
      \<le> 0.999 * Min (set (map g cs)) + 0.001 * (sum_list (map g cs) / real (length cs))"
    by simp
  with blend_formula [OF nf] blend_formula [OF ng] show ?thesis by simp
qed

lemma candidate_losses_scores:
  assumes ready: "bundle_ready vgg_19 resize_images image_bw images_rgb_fake image_rgb_real"
  shows "candidate_losses collection_size weights vgg_19 resize_images image_bw images_rgb_fake
      image_rgb_real
    = Some (map (\<lambda>i. candidate_score weights vgg_19 resize_images image_bw image_rgb_real
          (candidate i images_rgb_fake)) [0..<collection_size])"
proof -
  from ready have "rgb image_rgb_real" by (simp add: bundle_ready_def)
  then have ev: "vgg_19_evaluate vgg_19 image_rgb_real = Some (vgg_19 image_rgb_real)"
    by (rule vgg_19_evaluate_rgb)
  have "those_ok (map (\<lambda>i.
            loss_collection weights vgg_19 resize_images image_bw image_rgb_real
              (vgg_19 image_rgb_real) (slice_channels (i * 3) ((i + 1) * 3) images_rgb_fake))
          [0..<collection_size])
    = Some (map (\<lambda>i. candidate_score weights vgg_19 resize_images image_bw image_rgb_real
          (candidate i images_rgb_fake)) [0..<collection_size])"
  proof (rule those_ok_map)
    fix i assume "i \<in> set [0..<collection_size]"
    with ready have "candidate_ready vgg_19 resize_images image_bw image_rgb_real
        (candidate i images_rgb_fake)"
      by (simp add: bundle_ready_def)
    from loss_collection_score [OF this, of weights]
    show "loss_collection weights vgg_19 resize_images image_bw image_rgb_real
        (vgg_19 image_rgb_real) (slice_channels (i * 3) ((i + 1) * 3) images_rgb_fake)
      = Some (candidate_score weights vgg_19 resize_images image_bw image_rgb_real
          (candidate i images_rgb_fake))"
      by (simp add: candidate_def)
  qed
  with ev show ?thesis by (simp add: candidate_losses_def)
qed

lemma masks_nonneg:
  assumes "nonneg image_bw" and "keeps_nonneg resize_images"
  shows "nonneg (resize_images image_bw shp)"
  using assms unfolding keeps_nonneg_def by blast

lemma ex_bundle_ready:
  "bundle_ready (\<lambda>img layer. Some (map (map (map (\<lambda>px. px @ px))) img)) (\<lambda>m shp. m)
     [[[[0.5]]]]
     [[[[0, 0, 0, 1, 2, 3, 1, 2, 3, 1, 2, 3, 1, 2, 3, 1, 2, 3, 1, 2, 3, 1, 2, 3, 1, 2, 3]]]]
     [[[[0, 0, 0]]]]"
  by (simp add: bundle_ready_def candidate_def slice_channels_def collection_size_def
      candidate_ready_def rgb_def layers_def activations_def aligned_def has_shape_def
      rows_def cols_def chans_def upt_rec del: set_upt)

lemma ex_loss:
  "build_loss_func (\<lambda>img layer. Some (map (map (map (\<lambda>px. px @ px))) img)) (\<lambda>m shp. m)
     [[[[0.5]]]]
     [[[[0, 0, 0, 1, 2, 3, 1, 2, 3, 1, 2, 3, 1, 2, 3, 1, 2, 3, 1, 2, 3, 1, 2, 3, 1, 2, 3]]]]
     [[[[0, 0, 0]]]] = Some (383 / 18750)"
  by (simp add: build_loss_func_def build_loss_func_with_def candidate_losses_def
      vgg_19_evaluate_def image_normalized_def tbinop_def bcast_def tmap_def vgg_mean_def
      loss_collection_def losses_collection_def layers_def lambda_weights_def activations_def
      layer_loss_def rows_def cols_def slice_channels_def reduce_sum_def blend_def
      reduce_mean_def collection_size_def upt_rec)

lemma ex_mask: "nonneg [[[[0.5]]]]"
  by (simp add: nonneg_def)

lemma ex_resample: "keeps_nonneg (\<lambda>m shp. m)"
  by (simp add: keeps_nonneg_def)

text \<open>
  C5. For a bundle of 9 candidates whose activations are aligned with those of the ground
  truth, a grayscale mask that is not negative and a resampling that keeps it so, the
  loss is defined and not negative, and it is 0 if and only if every candidate agrees
  with the ground truth at every weighted layer wherever the resampled mask is not 0.
\<close>

theorem loss_nonneg_zero_iff_match:
  assumes ready: "bundle_ready vgg_19 resize_images image_bw images_rgb_fake image_rgb_real"
    and mask: "nonneg image_bw"
    and resample: "keeps_nonneg resize_images"
  shows "\<exists>loss. build_loss_func vgg_19 resize_images image_bw images_rgb_fake image_rgb_real
        = Some loss
    \<and> 0 \<le> loss
    \<and> (loss = 0 \<longleftrightarrow>
          bundle_matches vgg_19 resize_images image_bw images_rgb_fake image_rgb_real)"
proof -
  let ?score = "\<lambda>i. candidate_score lambda_weights vgg_19 resize_images image_bw image_rgb_real
          (candidate i images_rgb_fake)"
  let ?losses = "map ?score [0..<collection_size]"
  have masks: "\<And>shp. nonneg (resize_images image_bw shp)"
    by (rule masks_nonneg [OF mask resample])
  have cand: "candidate_ready vgg_19 resize_images image_bw image_rgb_real
      (candidate i images_rgb_fake)" if "i \<in> set [0..<collection_size]" for i
    using ready that by (simp add: bundle_ready_def)
  have ne: "?losses \<noteq> []" by (simp add: collection_size_def)
  have pos: "0 \<le> x" if "x \<in> set ?losses" for x
  proof -
    from that obtain i where "i \<in> set [0..<collection_size]" "x = ?score i" by auto
    with candidate_score_zero_iff(1) [OF cand masks] show ?thesis by simp
  qed
  from blend_nonneg [OF ne pos] obtain loss where loss: "blend ?losses = Some loss" "0 \<le> loss"
    and zero: "loss = 0 \<longleftrightarrow> (\<forall>x \<in> set ?losses. x = 0)"
    by blast
  have "(\<forall>x \<in> set ?losses. x = 0) \<longleftrightarrow> (\<forall>i \<in> set [0..<collection_size]. ?score i = 0)"
    by auto
  also have "\<dots> \<longleftrightarrow> bundle_matches vgg_19 resize_images image_bw images_rgb_fake image_rgb_real"
    unfolding bundle_matches_def
    using candidate_score_zero_iff(2) [OF cand masks] by blast
  finally have "loss = 0
      \<longleftrightarrow> bundle_matches vgg_19 resize_images image_bw images_rgb_fake image_rgb_real"
    using zero by simp
  moreover have "build_loss_func vgg_19 resize_images image_bw images_rgb_fake image_rgb_real
      = Some loss"
    using loss(1)
    by (simp add: build_loss_func_def build_loss_func_with_def candidate_losses_scores [OF ready])
  ultimately show ?thesis using loss(2) by blast
qed

theorem loss_nonneg_zero_iff_match_witness:
  "bundle_ready (\<lambda>img layer. Some (map (map (map (\<lambda>px. px @ px))) img)) (\<lambda>m shp. m)
     [[[[0.5]]]]
     [[[[0, 0, 0, 1, 2, 3, 1, 2, 3, 1, 2, 3, 1, 2, 3, 1, 2, 3, 1, 2, 3, 1, 2, 3, 1, 2, 3]]]]
     [[[[0, 0, 0]]]]
   \<and> nonneg [[[[0.5]]]]
   \<and> keeps_nonneg (\<lambda>m shp. m)
   \<and> build_loss_func (\<lambda>img layer. Some (map (map (map (\<lambda>px. px @ px))) img)) (\<lambda>m shp. m)
       [[[[0.5]]]]
       [[[[0, 0, 0, 1, 2, 3, 1, 2, 3, 1, 2, 3, 1, 2, 3, 1, 2, 3, 1, 2, 3, 1, 2, 3, 1, 2, 3]]]]
       [[[[0, 0, 0]]]] = Some (383 / 18750)
   \<and> \<not> bundle_matches (\<lambda>img layer. Some (map (map (map (\<lambda>px. px @ px))) img)) (\<lambda>m shp. m)
       [[[[0.5]]]]
       [[[[0, 0, 0, 1, 2, 3, 1, 2, 3, 1, 2, 3, 1, 2, 3, 1, 2, 3, 1, 2, 3, 1, 2, 3, 1, 2, 3]]]]
       [[[[0, 0, 0]]]]"
proof -
  from loss_nonneg_zero_iff_match [OF ex_bundle_ready ex_mask ex_resample]
  obtain loss where loss: "build_loss_func (\<lambda>img layer. Some (map (map (map (\<lambda>px. px @ px))) img)) (\<lambda>m shp. m)
       [[[[0.5]]]]
       [[[[0, 0, 0, 1, 2, 3, 1, 2, 3, 1, 2, 3, 1, 2, 3, 1, 2, 3, 1, 2, 3, 1, 2, 3, 1, 2, 3]]]]
       [[[[0, 0, 0]]]] = Some loss"
    and zero: "loss = 0 \<longleftrightarrow> bundle_matches (\<lambda>img layer. Some (map (map (map (\<lambda>px. px @ px))) img)) (\<lambda>m shp. m)
       [[[[0.5]]]]
       [[[[0, 0, 0, 1, 2, 3, 1, 2, 3, 1, 2, 3, 1, 2, 3, 1, 2, 3, 1, 2, 3, 1, 2, 3, 1, 2, 3]]]]
       [[[[0, 0, 0]]]]"
    by blast
  from loss ex_loss have "loss = 383 / 18750" by simp
  with zero have "\<not> bundle_matches (\<lambda>img layer. Some (map (map (map (\<lambda>px. px @ px))) img)) (\<lambda>m shp. m)
       [[[[0.5]]]]
       [[[[0, 0, 0, 1, 2, 3, 1, 2, 3, 1, 2, 3, 1, 2, 3, 1, 2, 3, 1, 2, 3, 1, 2, 3, 1, 2, 3]]]]
       [[[[0, 0, 0]]]]"
    by simp
  with ex_bundle_ready ex_mask ex_resample ex_loss show ?thesis by (intro conjI)
qed

text \<open>
  C6. With the activations and a mask that is not negative fixed, the loss does not
  decrease when one of the 6 layer weights is increased and the others are kept.
\<close>

theorem loss_monotone_in_weights:
  assumes ready: "bundle_ready vgg_19 resize_images image_bw images_rgb_fake image_rgb_real"
    and mask: "nonneg image_bw"
    and resample: "keeps_nonneg resize_images"
    and six: "length weights = 6" and k: "k < 6" and more: "weights ! k \<le> v"
  shows "\<exists>loss loss'.
      build_loss_func_with collection_size weights vgg_19 resize_images image_bw
        images_rgb_fake image_rgb_real = Some loss
    \<and> build_loss_func_with collection_size (weights[k := v]) vgg_19 resize_images image_bw
        images_rgb_fake image_rgb_real = Some loss'
    \<and> loss \<le> loss'"
proof -
  have masks: "\<And>shp. nonneg (resize_images image_bw shp)"
    by (rule masks_nonneg [OF mask resample])
  have cand: "candidate_ready vgg_19 resize_images image_bw image_rgb_real
      (candidate i images_rgb_fake)" if "i \<in> set [0..<collection_size]" for i
    using ready that by (simp add: bundle_ready_def)
  have le: "list_all2 (\<le>) weights (weights[k := v])"
    using more six k by (auto simp: list_all2_conv_all_nth nth_list_update)
  have ne: "[0..<collection_size] \<noteq> []" by (simp add: collection_size_def)
  have "candidate_score weights vgg_19 resize_images image_bw image_rgb_real
        (candidate i images_rgb_fake)
      \<le> candidate_score (weights[k := v]) vgg_19 resize_images image_bw image_rgb_real
        (candidate i images_rgb_fake)" if "i \<in> set [0..<collection_size]" for i
    by (rule candidate_score_mono [OF cand [OF that] masks le])
  from blend_mono [OF ne this]
  show ?thesis
    by (simp add: build_loss_func_with_def candidate_losses_scores [OF ready])
qed

theorem loss_monotone_in_weights_witness:
  "bundle_ready (\<lambda>img layer. Some (map (map (map (\<lambda>px. px @ px))) img)) (\<lambda>m shp. m)
     [[[[0.5]]]]
     [[[[0, 0, 0, 1, 2, 3, 1, 2, 3, 1, 2, 3, 1, 2, 3, 1, 2, 3, 1, 2, 3, 1, 2, 3, 1, 2, 3]]]]
     [[[[0, 0, 0]]]]
   \<and> nonneg [[[[0.5]]]]
   \<and> keeps_nonneg (\<lambda>m shp. m)
   \<and> length lambda_weights = 6 \<and> (0::nat) < 6 \<and> lambda_weights ! 0 \<le> 1
   \<and> (\<exists>loss loss'.
        build_loss_func_with collection_size lambda_weights (\<lambda>img layer. Some (map (map (map (\<lambda>px. px @ px))) img)) (\<lambda>m shp. m)
          [[[[0.5]]]]
          [[[[0, 0, 0, 1, 2, 3, 1, 2, 3, 1, 2, 3, 1, 2, 3, 1, 2, 3, 1, 2, 3, 1, 2, 3, 1, 2, 3]]]]
          [[[[0, 0, 0]]]] = Some loss
      \<and> build_loss_func_with collection_size (lambda_weights[0 := 1]) (\<lambda>img layer. Some (map (map (map (\<lambda>px. px @ px))) img)) (\<lambda>m shp. m)
          [[[[0.5]]]]
          [[[[0, 0, 0, 1, 2, 3, 1, 2, 3, 1, 2, 3, 1, 2, 3, 1, 2, 3, 1, 2, 3, 1, 2, 3, 1, 2, 3]]]]
          [[[[0, 0, 0]]]] = Some loss'
      \<and> loss \<le> loss')"
proof -
  have six: "length lambda_weights = 6" and k: "(0::nat) < 6" and more: "lambda_weights ! 0 \<le> 1"
    by (simp_all add: lambda_weights_def)
  from loss_monotone_in_weights [OF ex_bundle_ready ex_mask ex_resample six k more]
    ex_bundle_ready ex_mask ex_resample six k more
  show ?thesis by (intro conjI)
qed

end
